theory Spec2Isabelle
  imports Main
begin

section \<open>Tasks and the validation oracle (services/TaskService.ts)\<close>

text \<open>
  The interface \<open>Task\<close> of pages/TaskManagerPage.ts. Every field is read as a value
  or as \<open>undefined\<close>; \<open>None\<close> stands for \<open>undefined\<close> (the key is missing or
  holds \<open>undefined\<close>). The
  enumerations \<open>importance\<close> and \<open>label\<close> are strings at run time, and the oracle
  inspects them as strings (\<open>createInvalidTask\<close> passes \<open>'Invalid' as any\<close>), so they
  are strings here. Characters are the code units 0..255.
\<close>

record Task =
  title :: "string option"
  description :: "string option"
  importance :: "string option"
  label :: "string option"
  completed :: "bool option"

text \<open>The result \<open>{ valid: boolean; errors: string[] }\<close> of \<open>validateTask\<close>.\<close>

record ValidationResult =
  valid :: bool
  errors :: "string list"

text \<open>JavaScript truthiness of a value that is a string or \<open>undefined\<close>.\<close>

fun truthy :: "string option \<Rightarrow> bool" where
  "truthy None = False"
| "truthy (Some s) = (s \<noteq> [])"

text \<open>
  \<open>String.prototype.trim\<close>: white space and line terminators among the code units
  0..255 are TAB, LF, VT, FF, CR, SPACE and NBSP.
\<close>

definition is_white_space :: "char \<Rightarrow> bool" where
  "is_white_space c = ((of_char c :: nat) \<in> {9, 10, 11, 12, 13, 32, 160})"

definition trim :: "string \<Rightarrow> string" where
  "trim s = rev (dropWhile is_white_space (rev (dropWhile is_white_space s)))"

text \<open>The regular expression \<open>/^[A-Z]/\<close>: the first code unit is one of A..Z.\<close>

fun starts_with_capital :: "string \<Rightarrow> bool" where
  "starts_with_capital [] = False"
| "starts_with_capital (c # cs) = (65 \<le> (of_char c :: nat) \<and> (of_char c :: nat) \<le> 90)"

text \<open>\<open>Array.prototype.includes\<close> on a list of strings.\<close>

definition array_includes :: "string list \<Rightarrow> string \<Rightarrow> bool" where
  "array_includes xs x = (x \<in> set xs)"

text \<open>
  \<open>TaskService.validateTask\<close>: five checks in the source's order, each pushing its
  message; \<open>valid\<close> is \<open>errors.length === 0\<close>. The input is only read.
\<close>

definition validateTask :: "Task \<Rightarrow> ValidationResult" where
  "validateTask task =
    (let e1 = (if \<not> truthy (title task) \<or> (case title task of None \<Rightarrow> True | Some t \<Rightarrow> trim t = [])
               then [''Title is required''] else []);
         e2 = (if truthy (title task) \<and> (case title task of None \<Rightarrow> False | Some t \<Rightarrow> \<not> starts_with_capital t)
               then [''Title should start with a capital letter''] else []);
         e3 = (if \<not> truthy (importance task)
               then [''Importance is required''] else []);
         e4 = (if truthy (importance task) \<and>
                  (case importance task of None \<Rightarrow> False
                   | Some i \<Rightarrow> \<not> array_includes [''High'', ''Medium'', ''Low''] i)
               then [''Invalid importance value''] else []);
         e5 = (if truthy (label task) \<and>
                  (case label task of None \<Rightarrow> False
                   | Some l \<Rightarrow> \<not> array_includes [''Work'', ''Social'', ''Home'', ''Hobby''] l)
               then [''Invalid label value''] else []);
         errs = e1 @ e2 @ e3 @ e4 @ e5
     in \<lparr> valid = (length errs = 0), errors = errs \<rparr>)"

text \<open>
  The validity rule in the specification's words: the title is non-empty and starts with
  an uppercase letter, the importance is absent or one of the three values, the label is
  absent or one of the four values.
\<close>

definition spec_valid :: "Task \<Rightarrow> bool" where
  "spec_valid task =
    ((case title task of None \<Rightarrow> False | Some t \<Rightarrow> t \<noteq> [] \<and> starts_with_capital t) \<and>
     (case importance task of None \<Rightarrow> True | Some i \<Rightarrow> i \<in> {''Low'', ''Medium'', ''High''}) \<and>
     (case label task of None \<Rightarrow> True | Some l \<Rightarrow> l \<in> {''Work'', ''Social'', ''Home'', ''Hobby''}))"

subsection \<open>Test data generation\<close>

text \<open>
  \<open>Partial<Task>\<close> as the argument of \<open>createValidTask\<close>. The object spread
  \<open>{ ...defaults, ...overrides }\<close> copies every key of \<open>overrides\<close>, also one whose
  value is \<open>undefined\<close>, so a key has three states: missing (\<open>None\<close>), present and
  \<open>undefined\<close> (\<open>Some None\<close>), present with a value (\<open>Some (Some v)\<close>).
\<close>

record TaskOverrides =
  o_title :: "string option option"
  o_description :: "string option option"
  o_importance :: "string option option"
  o_label :: "string option option"
  o_completed :: "bool option option"

text \<open>One key of the spread: the later object wins where it has the key.\<close>

fun spread :: "'a option \<Rightarrow> 'a option option \<Rightarrow> 'a option" where
  "spread d None = d"
| "spread d (Some v) = v"

text \<open>
  \<open>TaskService.createValidTask(overrides?)\<close>; a call without argument spreads
  \<open>undefined\<close>, which copies nothing.
\<close>

definition createValidTask :: "TaskOverrides option \<Rightarrow> Task" where
  "createValidTask overrides =
    (case overrides of
       None \<Rightarrow>
         \<lparr> title = Some ''Test Task'', description = Some ''Test description'',
           importance = Some ''Medium'', label = Some ''Work'', completed = Some False \<rparr>
     | Some ov \<Rightarrow>
         \<lparr> title = spread (Some ''Test Task'') (o_title ov),
           description = spread (Some ''Test description'') (o_description ov),
           importance = spread (Some ''Medium'') (o_importance ov),
           label = spread (Some ''Work'') (o_label ov),
           completed = spread (Some False) (o_completed ov) \<rparr>)"

text \<open>
  \<open>TaskService.generateAllCombinations\<close>: three nested \<open>forEach\<close> loops over constant
  arrays, the innermost pushing one task onto \<open>combinations\<close>.
\<close>

definition importances :: "string list" where
  "importances = [''High'', ''Medium'', ''Low'']"

definition labels :: "string list" where
  "labels = [''Work'', ''Social'', ''Home'', ''Hobby'']"

definition completedStates :: "bool list" where
  "completedStates = [True, False]"

definition combination :: "string \<Rightarrow> string \<Rightarrow> bool \<Rightarrow> Task" where
  "combination imp lab c =
    \<lparr> title = Some (''Task '' @ imp @ '' '' @ lab @ '' '' @ (if c then ''Done'' else ''Pending'')),
      description = Some (''Task with '' @ imp @ '' importance, '' @ lab @ '' label, '' @
                          (if c then ''completed'' else ''pending'')),
      importance = Some imp, label = Some lab, completed = Some c \<rparr>"

definition generateAllCombinations :: "Task list" where
  "generateAllCombinations =
    fold (\<lambda>imp combinations.
      fold (\<lambda>lab combinations.
        fold (\<lambda>c combinations. combinations @ [combination imp lab c])
          completedStates combinations)
        labels combinations)
      importances []"

text \<open>The triple a task is addressed by.\<close>

definition triple :: "Task \<Rightarrow> string option \<times> string option \<times> bool option" where
  "triple t = (importance t, label t, completed t)"

section \<open>Wait and retry primitives (utils/WaitHelper.ts)\<close>

text \<open>
  A rejected promise or a thrown value. \<open>TimeoutError\<close> and \<open>StrictModeViolation\<close>
  are the two failures of the driver's element actions used further down.
\<close>

datatype error = Thrown string | TimeoutError | StrictModeViolation

text \<open>
  An asynchronous predicate \<open>() => Promise<boolean>\<close> as one run sees it: its
  invocation number \<open>k\<close> (from 0) resolves to a boolean or rejects.
\<close>

type_synonym async_predicate = "nat \<Rightarrow> error + bool"

text \<open>
  What a run of \<open>waitWithBackoff\<close> did: how often it invoked the action, and the
  arguments of its calls of \<open>wait\<close> in order (milliseconds).
\<close>

record backoff_log =
  invocations :: nat
  waits :: "nat list"

text \<open>
  The \<open>for\<close> loop of \<open>waitWithBackoff\<close>. There is no \<open>try\<close> around
  \<open>await action()\<close>: a rejection leaves the function at once.
\<close>

function backoff_loop ::
  "async_predicate \<Rightarrow> nat \<Rightarrow> nat \<Rightarrow> nat \<Rightarrow> backoff_log \<Rightarrow> (error + bool) \<times> backoff_log" where
  "backoff_loop action maxAttempts attempt delay log =
    (if attempt < maxAttempts then
       (case action (invocations log) of
          Inl e \<Rightarrow> (Inl e, log\<lparr>invocations := invocations log + 1\<rparr>)
        | Inr result \<Rightarrow>
            if result then (Inr True, log\<lparr>invocations := invocations log + 1\<rparr>)
            else if attempt < maxAttempts - 1 then
              backoff_loop action maxAttempts (attempt + 1) (delay * 2)
                (log\<lparr>invocations := invocations log + 1, waits := waits log @ [delay]\<rparr>)
            else
              backoff_loop action maxAttempts (attempt + 1) delay
                (log\<lparr>invocations := invocations log + 1\<rparr>))
     else (Inr False, log))"
  by pat_completeness auto
termination
  by (relation "measure (\<lambda>(action, maxAttempts, attempt, delay, log). maxAttempts - attempt)") auto

declare backoff_loop.simps [simp del]

definition waitWithBackoff ::
  "async_predicate \<Rightarrow> nat \<Rightarrow> nat \<Rightarrow> (error + bool) \<times> backoff_log" where
  "waitWithBackoff action maxAttempts initialDelay =
     backoff_loop action maxAttempts 0 initialDelay \<lparr>invocations = 0, waits = []\<rparr>"





section \<open>Persisted-state access (services/TestDataService.ts)\<close>

text \<open>
  Web Storage: \<open>getItem\<close> gives the string stored under a key, or \<open>null\<close>
  (\<open>None\<close>) for a missing key; \<open>clear\<close> removes every key. The page has a persistent
  and a session store.
\<close>

type_synonym storage = "string \<rightharpoonup> string"

record browser =
  localStorage :: storage
  sessionStorage :: storage

text \<open>
  The values \<open>JSON.parse\<close> produces. Numbers are IEEE doubles, left unspecified: no
  property below looks into one.
\<close>

typedecl js_number

datatype json =
  JNull
  | JBool bool
  | JNumber js_number
  | JString string
  | JArray "json list"
  | JObject "(string \<times> json) list"

text \<open>
  \<open>TestDataService.getStoredTasks\<close>:
  \<^verbatim>\<open>const stored = localStorage.getItem('tasks'); return stored ? JSON.parse(stored) : [];\<close>
  The built-in \<open>JSON.parse\<close> is a parameter: it decodes a string or throws. The
  decoded value is returned as it is; nothing checks that it is an array of tasks.
\<close>

definition getStoredTasks :: "(string \<Rightarrow> error + json) \<Rightarrow> browser \<Rightarrow> error + json" where
  "getStoredTasks JSON_parse b =
    (let stored = localStorage b ''tasks'' in
     if truthy stored
     then (case stored of None \<Rightarrow> Inr (JArray []) | Some s \<Rightarrow> JSON_parse s)
     else Inr (JArray []))"

text \<open>
  \<open>TestDataService.resetState\<close>: the evaluated callback clears both stores, then the
  page is reloaded. What the application under test does to the stores while it starts
  is not part of this repository: it is the parameter \<open>app_load\<close>.
\<close>

definition clear_stores :: "browser \<Rightarrow> browser" where
  "clear_stores b = b\<lparr>localStorage := Map.empty, sessionStorage := Map.empty\<rparr>"

definition resetState :: "(browser \<Rightarrow> browser) \<Rightarrow> browser \<Rightarrow> browser" where
  "resetState app_load b = app_load (clear_stores b)"

section \<open>The page object (pages/TaskManagerPage.ts)\<close>

text \<open>
  The rendered page as the locators of the page object resolve on it, in document
  order: the \<open>.task-item\<close> elements, each with the texts of its \<open>h3\<close> and of its
  \<open>button\<close> descendants and with the task's values as \<open>getTaskDetails\<close> reads
  them from the card (the paragraph \<open>p.text-sm\<close>, and the paragraphs
  \<open>Importance:\<close> and \<open>Label:\<close> without their prefix), and the elements matched by
  \<open>.task-item input[type="text"]\<close>, \<open>.task-item textarea\<close> and
  \<open>.task-item select\<close>.
\<close>

record TaskItem =
  h3 :: "string list"
  buttons :: "string list"
  description_text :: string
  importance_text :: string
  label_text :: string

record SelectElement =
  options :: "string list"
  selected :: string

record dom =
  task_items :: "TaskItem list"
  text_inputs :: "string list"
  textareas :: "string list"
  selects :: "SelectElement list"

text \<open>
  Two things are outside the repository and are parameters. The driver's reading of a
  \<open>:has-text("...")\<close> selector with the given text between the quotes: a failure when
  the selector does not parse, or the set of element texts it matches. The application
  under test: what a click on button \<open>j\<close> of task item \<open>i\<close> makes of the page.
\<close>

type_synonym text_selector = "string \<Rightarrow> error + (string \<Rightarrow> bool)"

type_synonym application = "nat \<times> nat \<Rightarrow> dom \<Rightarrow> dom"

text \<open>The outcome of an operation of the page object: its failure, if any, and the page.\<close>

type_synonym outcome = "(error + unit) \<times> dom"

definition and_then :: "outcome \<Rightarrow> (dom \<Rightarrow> outcome) \<Rightarrow> outcome" where
  "and_then r f = (case r of (Inl e, d) \<Rightarrow> (Inl e, d) | (Inr u, d) \<Rightarrow> f d)"

text \<open>
  \<open>getTaskByTitle\<close>: the locator \<open>.task-item:has(h3:has-text("${taskTitle}"))\<close>. It
  denotes every task item with a matching \<open>h3\<close>; the source applies neither
  \<open>first()\<close> nor \<open>nth\<close> to it.
\<close>

definition getTaskByTitle :: "text_selector \<Rightarrow> string \<Rightarrow> dom \<Rightarrow> error + nat list" where
  "getTaskByTitle has_text taskTitle d =
    (case has_text taskTitle of
       Inl e \<Rightarrow> Inl e
     | Inr matches \<Rightarrow>
         Inr (filter (\<lambda>i. list_ex matches (h3 (task_items d ! i))) [0..<length (task_items d)]))"

text \<open>\<open>card.locator('button...')\<close>: the matching buttons inside the given task items.\<close>

definition buttons_in :: "(string \<Rightarrow> bool) \<Rightarrow> nat list \<Rightarrow> dom \<Rightarrow> (nat \<times> nat) list" where
  "buttons_in matches cards d =
    concat (map (\<lambda>i. map (Pair i)
                        (filter (\<lambda>j. matches (buttons (task_items d ! i) ! j))
                                [0..<length (buttons (task_items d ! i))]))
                cards)"

definition locator_button_has_text ::
  "text_selector \<Rightarrow> string \<Rightarrow> error + nat list \<Rightarrow> dom \<Rightarrow> error + (nat \<times> nat) list" where
  "locator_button_has_text has_text t cards d =
    (case cards of
       Inl e \<Rightarrow> Inl e
     | Inr is \<Rightarrow> (case has_text t of Inl e \<Rightarrow> Inl e | Inr matches \<Rightarrow> Inr (buttons_in matches is d)))"

text \<open>
  \<open>locator.click()\<close>. The driver's locators are strict: an action on a locator that
  resolves to more than one element fails, and one that resolves to no element waits
  and times out. The elements of the page are taken to be visible and enabled. A click
  on the one element is handled by the application.
\<close>

fun click :: "application \<Rightarrow> error + (nat \<times> nat) list \<Rightarrow> dom \<Rightarrow> outcome" where
  "click on_click (Inl e) d = (Inl e, d)"
| "click on_click (Inr []) d = (Inl TimeoutError, d)"
| "click on_click (Inr [el]) d = (Inr (), on_click el d)"
| "click on_click (Inr (el # el' # els)) d = (Inl StrictModeViolation, d)"

text \<open>\<open>locator.first()\<close>: at most the first element.\<close>

definition first :: "error + 'a list \<Rightarrow> error + 'a list" where
  "first loc = (case loc of Inl e \<Rightarrow> Inl e | Inr els \<Rightarrow> Inr (take 1 els))"

text \<open>The regular expression \<open>/Complete|Uncomplete/\<close>, tested on a button's text.\<close>

fun is_prefix :: "string \<Rightarrow> string \<Rightarrow> bool" where
  "is_prefix [] ys = True"
| "is_prefix (x # xs) [] = False"
| "is_prefix (x # xs) (y # ys) = (x = y \<and> is_prefix xs ys)"

fun contains :: "string \<Rightarrow> string \<Rightarrow> bool" where
  "contains s [] = is_prefix s []"
| "contains s (y # ys) = (is_prefix s (y # ys) \<or> contains s ys)"

definition complete_or_uncomplete :: "string \<Rightarrow> bool" where
  "complete_or_uncomplete t = (contains ''Complete'' t \<or> contains ''Uncomplete'' t)"

text \<open>
  \<open>toggleTaskCompletion\<close>, \<open>deleteTask\<close> and \<open>clickEditTask\<close>: the button inside
  the located card is clicked, then the page is given 300 ms to settle.
\<close>

definition toggleTaskCompletion :: "text_selector \<Rightarrow> application \<Rightarrow> string \<Rightarrow> dom \<Rightarrow> outcome" where
  "toggleTaskCompletion has_text on_click taskTitle d =
    (let taskCard = getTaskByTitle has_text taskTitle d;
         toggleButton = (case taskCard of Inl e \<Rightarrow> Inl e
                          | Inr is \<Rightarrow> Inr (buttons_in complete_or_uncomplete is d))
     in click on_click toggleButton d)"

definition deleteTask :: "text_selector \<Rightarrow> application \<Rightarrow> string \<Rightarrow> dom \<Rightarrow> outcome" where
  "deleteTask has_text on_click taskTitle d =
    (let taskCard = getTaskByTitle has_text taskTitle d;
         deleteButton = locator_button_has_text has_text ''Delete'' taskCard d
     in click on_click deleteButton d)"

definition clickEditTask :: "text_selector \<Rightarrow> application \<Rightarrow> string \<Rightarrow> dom \<Rightarrow> outcome" where
  "clickEditTask has_text on_click taskTitle d =
    (let taskCard = getTaskByTitle has_text taskTitle d;
         editButton = locator_button_has_text has_text ''Edit'' taskCard d
     in click on_click editButton d)"

text \<open>
  \<open>clear()\<close>, \<open>fill(value)\<close> and \<open>selectOption(value)\<close> on element \<open>n\<close> of a locator
  (\<open>first()\<close> is element 0): the action waits for the element, and for the option, and
  times out when there is none.
\<close>

definition fill_text_input :: "nat \<Rightarrow> string \<Rightarrow> dom \<Rightarrow> outcome" where
  "fill_text_input n v d =
    (if n < length (text_inputs d)
     then (Inr (), d\<lparr>text_inputs := (text_inputs d)[n := v]\<rparr>)
     else (Inl TimeoutError, d))"

definition fill_textarea :: "nat \<Rightarrow> string \<Rightarrow> dom \<Rightarrow> outcome" where
  "fill_textarea n v d =
    (if n < length (textareas d)
     then (Inr (), d\<lparr>textareas := (textareas d)[n := v]\<rparr>)
     else (Inl TimeoutError, d))"

definition selectOption :: "nat \<Rightarrow> string \<Rightarrow> dom \<Rightarrow> outcome" where
  "selectOption n v d =
    (if n < length (selects d) \<and> v \<in> set (options (selects d ! n))
     then (Inr (), d\<lparr>selects := (selects d)[n := (selects d ! n)\<lparr>selected := v\<rparr>]\<rparr>)
     else (Inl TimeoutError, d))"

text \<open>
  \<open>fillEditForm\<close>: four \<open>if\<close> statements in sequence. Title and description are
  written (cleared, then filled) when they are not \<open>undefined\<close>, importance and label
  are selected when they are truthy.
\<close>

definition write_title :: "Task \<Rightarrow> dom \<Rightarrow> outcome" where
  "write_title task d =
    (case title task of
       None \<Rightarrow> (Inr (), d)
     | Some t \<Rightarrow> and_then (fill_text_input 0 '''' d) (fill_text_input 0 t))"

definition write_description :: "Task \<Rightarrow> dom \<Rightarrow> outcome" where
  "write_description task d =
    (case description task of
       None \<Rightarrow> (Inr (), d)
     | Some t \<Rightarrow> and_then (fill_textarea 0 '''' d) (fill_textarea 0 t))"

definition write_importance :: "Task \<Rightarrow> dom \<Rightarrow> outcome" where
  "write_importance task d =
    (case importance task of
       None \<Rightarrow> (Inr (), d)
     | Some i \<Rightarrow> if truthy (Some i) then selectOption 0 i d else (Inr (), d))"

definition write_label :: "Task \<Rightarrow> dom \<Rightarrow> outcome" where
  "write_label task d =
    (case label task of
       None \<Rightarrow> (Inr (), d)
     | Some l \<Rightarrow> if truthy (Some l) then selectOption 1 l d else (Inr (), d))"

definition fillEditForm :: "Task \<Rightarrow> dom \<Rightarrow> outcome" where
  "fillEditForm task d =
    and_then (write_title task d) (\<lambda>d.
    and_then (write_description task d) (\<lambda>d.
    and_then (write_importance task d) (\<lambda>d.
    write_label task d)))"

text \<open>
  \<open>saveEditedTask\<close>: the first \<open>.task-item button:has-text("Save")\<close> of the page is
  clicked.
\<close>

definition saveEditedTask :: "text_selector \<Rightarrow> application \<Rightarrow> dom \<Rightarrow> outcome" where
  "saveEditedTask has_text on_click d =
    (let saveButton =
           first (locator_button_has_text has_text ''Save''
                    (Inr [0..<length (task_items d)]) d)
     in click on_click saveButton d)"

text \<open>\<open>editTask\<close>: the three steps in sequence; a failure ends the operation.\<close>

definition editTask :: "text_selector \<Rightarrow> application \<Rightarrow> string \<Rightarrow> Task \<Rightarrow> dom \<Rightarrow> outcome" where
  "editTask has_text on_click oldTitle newTask d =
    and_then (clickEditTask has_text on_click oldTitle d) (\<lambda>d.
    and_then (fillEditForm newTask d) (\<lambda>d.
    saveEditedTask has_text on_click d))"

subsection \<open>Sample pages and environments\<close>

text \<open>
  Concrete data for the closed instances below. A task card as the locators of the page
  object expect it: one \<open>h3\<close> with the title and the buttons Complete, Edit and
  Delete. \<open>two_same_title\<close> shows two tasks with the same title, \<open>three_tasks\<close> adds a
  third one, \<open>editing\<close> is a page whose first card has its inline form open. The sample
  driver matches a text when the element's text contains it; the sample application
  removes the card whose button was clicked.
\<close>

definition task_card :: "string \<Rightarrow> TaskItem" where
  "task_card t = \<lparr>h3 = [t], buttons = [''Complete'', ''Edit'', ''Delete''],
                  description_text = '''', importance_text = ''Medium'', label_text = ''Work''\<rparr>"

definition two_same_title :: dom where
  "two_same_title =
    \<lparr>task_items = [task_card ''Buy milk'', task_card ''Buy milk''],
      text_inputs = [], textareas = [], selects = []\<rparr>"

definition three_tasks :: dom where
  "three_tasks =
    \<lparr>task_items = [task_card ''Buy milk'', task_card ''Buy milk'', task_card ''Walk dog''],
      text_inputs = [], textareas = [], selects = []\<rparr>"

definition editing :: dom where
  "editing =
    \<lparr>task_items = [\<lparr>h3 = [], buttons = [''Save'', ''Cancel''], description_text = ''Old description'',
                     importance_text = ''Medium'', label_text = ''Work''\<rparr>,
                   task_card ''Walk dog''],
      text_inputs = [''Old title''], textareas = [''Old description''],
      selects = [\<lparr>options = [''High'', ''Medium'', ''Low''], selected = ''Medium''\<rparr>,
                 \<lparr>options = [''Work'', ''Social'', ''Home'', ''Hobby''], selected = ''Work''\<rparr>]\<rparr>"

definition substring_selector :: text_selector where
  "substring_selector t = Inr (contains t)"

definition removing_app :: application where
  "removing_app el d =
     d\<lparr>task_items := take (fst el) (task_items d) @ drop (Suc (fst el)) (task_items d)\<rparr>"

text \<open>
  Two sample applications with an inline edit form, for the closed instances about
  \<open>editTask\<close>. A click on Edit turns the card into a form: the title goes into the
  text input, and the text area and the two selects show the values \<open>shown card\<close>. A
  click on Save stores the form's values in the card and closes the form.
  \<open>prefilling_app\<close> opens the form with the task's current values.
  \<open>resetting_app\<close> is the application as the repository's bug reports describe it
  (Bug 10 of the Task Manager Bug Report, "Editing With No Changes Resets Task
  Parameters": in edit state the description is empty, and after saving the description
  is emptied, the label is Hobby and the importance is Low; Bug 7 of
  summer-qa-task-2024/BUG_REPORT.md: "the description disappears").
\<close>

definition form_app :: "(TaskItem \<Rightarrow> string \<times> string \<times> string) \<Rightarrow> application" where
  "form_app shown el d =
    (let i = fst el; card = task_items d ! i; b = buttons card ! snd el in
     if b = ''Edit'' then
       (case shown card of
          (desc, imp, lab) \<Rightarrow>
            d\<lparr>task_items := (task_items d)[i := card\<lparr>h3 := [], buttons := [''Save'', ''Cancel'']\<rparr>],
              text_inputs := h3 card,
              textareas := [desc],
              selects := [\<lparr>options = [''High'', ''Medium'', ''Low''], selected = imp\<rparr>,
                          \<lparr>options = [''Work'', ''Social'', ''Home'', ''Hobby''], selected = lab\<rparr>]\<rparr>)
     else if b = ''Save'' then
       (case (textareas d, map selected (selects d)) of
          ([desc], [imp, lab]) \<Rightarrow>
            d\<lparr>task_items := (task_items d)[i := card\<lparr>h3 := text_inputs d,
                                  buttons := [''Complete'', ''Edit'', ''Delete''],
                                  description_text := desc, importance_text := imp,
                                  label_text := lab\<rparr>],
              text_inputs := [], textareas := [], selects := []\<rparr>
        | _ \<Rightarrow> d)
     else d)"

definition prefilling_app :: application where
  "prefilling_app = form_app (\<lambda>card. (description_text card, importance_text card, label_text card))"

definition resetting_app :: application where
  "resetting_app = form_app (\<lambda>card. ('''', ''Low'', ''Hobby''))"

definition one_task :: dom where
  "one_task =
    \<lparr>task_items = [\<lparr>h3 = [''Walk dog''], buttons = [''Complete'', ''Edit'', ''Delete''],
                     description_text = ''In the park'', importance_text = ''High'',
                     label_text = ''Home''\<rparr>],
      text_inputs = [], textareas = [], selects = []\<rparr>"

section \<open>Properties of the validation oracle\<close>

lemma starts_with_capital_not_blank:
  "starts_with_capital t \<Longrightarrow> trim t \<noteq> []"
proof (cases t)
  case Nil
  assume "starts_with_capital t"
  with Nil show ?thesis by simp
next
  case (Cons c cs)
  assume cap: "starts_with_capital t"
  with Cons have nw: "\<not> is_white_space c"
    by (auto simp: is_white_space_def)
  have "rev (c # cs) \<noteq> []" by simp
  have "dropWhile is_white_space (rev (c # cs)) \<noteq> []"
  proof
    assume "dropWhile is_white_space (rev (c # cs)) = []"
    then have "\<forall>x \<in> set (rev (c # cs)). is_white_space x"
      by simp
    then show False using nw by simp
  qed
  then show ?thesis using Cons nw by (simp add: trim_def)
qed

text \<open>
  C1 (as stated, refuted): a task with a capitalised title and no importance satisfies the
  specification's rule, and \<open>validateTask\<close> rejects it with "Importance is required".
\<close>

theorem validateTask_importance_absent_counterexample:
  "spec_valid \<lparr> title = Some ''Valid Title'', description = None, importance = None,
                label = None, completed = None \<rparr> \<and>
   validateTask \<lparr> title = Some ''Valid Title'', description = None, importance = None,
                  label = None, completed = None \<rparr>
     = \<lparr> valid = False, errors = [''Importance is required''] \<rparr>"
  by (simp add: spec_valid_def validateTask_def trim_def is_white_space_def)

text \<open>
  C1 (amended): \<open>validateTask\<close> accepts a task exactly when its title is non-empty and
  starts with one of A..Z, its importance is present and one of High, Medium, Low, and
  its label is absent, empty or one of Work, Social, Home, Hobby; \<open>errors\<close> is empty
  exactly when \<open>valid\<close> holds. The function returns a fresh result and has no access to
  a store, so the task is not changed.
\<close>

theorem validateTask_valid_iff:
  "valid (validateTask task) =
     ((\<exists>t. title task = Some t \<and> t \<noteq> [] \<and> starts_with_capital t) \<and>
      (\<exists>i. importance task = Some i \<and> i \<in> {''High'', ''Medium'', ''Low''}) \<and>
      (label task = None \<or> label task = Some [] \<or>
       (\<exists>l. label task = Some l \<and> l \<in> {''Work'', ''Social'', ''Home'', ''Hobby''}))) \<and>
   (errors (validateTask task) = []) = valid (validateTask task)"
proof -
  define e1 where "e1 = (if \<not> truthy (title task) \<or> (case title task of None \<Rightarrow> True | Some t \<Rightarrow> trim t = [])
               then [''Title is required''] else [])"
  define e2 where "e2 = (if truthy (title task) \<and> (case title task of None \<Rightarrow> False | Some t \<Rightarrow> \<not> starts_with_capital t)
               then [''Title should start with a capital letter''] else [])"
  define e3 where "e3 = (if \<not> truthy (importance task)
               then [''Importance is required''] else [])"
  define e4 where "e4 = (if truthy (importance task) \<and>
                  (case importance task of None \<Rightarrow> False
                   | Some i \<Rightarrow> \<not> array_includes [''High'', ''Medium'', ''Low''] i)
               then [''Invalid importance value''] else [])"
  define e5 where "e5 = (if truthy (label task) \<and>
                  (case label task of None \<Rightarrow> False
                   | Some l \<Rightarrow> \<not> array_includes [''Work'', ''Social'', ''Home'', ''Hobby''] l)
               then [''Invalid label value''] else [])"
  have res: "validateTask task =
      \<lparr> valid = (length (e1 @ e2 @ e3 @ e4 @ e5) = 0), errors = e1 @ e2 @ e3 @ e4 @ e5 \<rparr>"
    unfolding validateTask_def Let_def e1_def e2_def e3_def e4_def e5_def ..
  have t: "(e1 = [] \<and> e2 = []) = (\<exists>t. title task = Some t \<and> t \<noteq> [] \<and> starts_with_capital t)"
  proof (cases "title task")
    case None
    then show ?thesis by (simp add: e1_def e2_def)
  next
    case (Some t)
    show ?thesis
    proof (cases "starts_with_capital t")
      case True
      then have "trim t \<noteq> []" and "t \<noteq> []"
        using starts_with_capital_not_blank by auto
      with Some True show ?thesis by (simp add: e1_def e2_def)
    next
      case False
      with Some show ?thesis by (cases "t = []") (simp_all add: e1_def e2_def trim_def)
    qed
  qed
  have i: "(e3 = [] \<and> e4 = []) =
      (\<exists>i. importance task = Some i \<and> i \<in> {''High'', ''Medium'', ''Low''})"
    by (cases "importance task") (auto simp: e3_def e4_def array_includes_def)
  have l: "(e5 = []) =
      (label task = None \<or> label task = Some [] \<or>
       (\<exists>l. label task = Some l \<and> l \<in> {''Work'', ''Social'', ''Home'', ''Hobby''}))"
    by (cases "label task") (auto simp: e5_def array_includes_def)
  have "valid (validateTask task) = ((e1 = [] \<and> e2 = []) \<and> (e3 = [] \<and> e4 = []) \<and> e5 = [])"
    by (simp add: res)
  moreover have "(errors (validateTask task) = []) = valid (validateTask task)"
    by (simp add: res)
  ultimately show ?thesis
    unfolding t i l by blast
qed

theorem validateTask_valid_iff_witness:
  "valid (validateTask \<lparr> title = Some ''Buy milk'', description = None,
                          importance = Some ''High'', label = Some ''Home'',
                          completed = None \<rparr>) \<and>
   errors (validateTask \<lparr> title = Some ''Buy milk'', description = None,
                           importance = Some ''High'', label = Some ''Home'',
                           completed = None \<rparr>) = [] \<and>
   \<not> valid (validateTask \<lparr> title = Some ''buy milk'', description = None,
                            importance = Some ''High'', label = Some ''Home'',
                            completed = None \<rparr>)"
  using validateTask_valid_iff [of "\<lparr> title = Some ''Buy milk'', description = None,
                          importance = Some ''High'', label = Some ''Home'',
                          completed = None \<rparr>"]
        validateTask_valid_iff [of "\<lparr> title = Some ''buy milk'', description = None,
                          importance = Some ''High'', label = Some ''Home'',
                          completed = None \<rparr>"]
  by simp

section \<open>Properties of the test data generators\<close>

lemma generateAllCombinations_unfold:
  "generateAllCombinations =
    [combination ''High'' ''Work'' True, combination ''High'' ''Work'' False,
     combination ''High'' ''Social'' True, combination ''High'' ''Social'' False,
     combination ''High'' ''Home'' True, combination ''High'' ''Home'' False,
     combination ''High'' ''Hobby'' True, combination ''High'' ''Hobby'' False,
     combination ''Medium'' ''Work'' True, combination ''Medium'' ''Work'' False,
     combination ''Medium'' ''Social'' True, combination ''Medium'' ''Social'' False,
     combination ''Medium'' ''Home'' True, combination ''Medium'' ''Home'' False,
     combination ''Medium'' ''Hobby'' True, combination ''Medium'' ''Hobby'' False,
     combination ''Low'' ''Work'' True, combination ''Low'' ''Work'' False,
     combination ''Low'' ''Social'' True, combination ''Low'' ''Social'' False,
     combination ''Low'' ''Home'' True, combination ''Low'' ''Home'' False,
     combination ''Low'' ''Hobby'' True, combination ''Low'' ''Hobby'' False]"
  by (simp add: generateAllCombinations_def importances_def labels_def completedStates_def)

lemma triple_combination: "triple (combination i l c) = (Some i, Some l, Some c)"
  by (simp add: triple_def combination_def)

lemma title_combination:
  "title (combination i l c) =
     Some (''Task '' @ i @ '' '' @ l @ '' '' @ (if c then ''Done'' else ''Pending''))"
  by (simp add: combination_def)

text \<open>
  C2: \<open>generateAllCombinations\<close> has no argument and reads no state, so it denotes one
  list. The list has 24 tasks; their triples are pairwise distinct and are exactly the
  3 \<times> 4 \<times> 2 triples over the three importances, four labels and two completion states;
  every title is "Task", the importance, the label and Done or Pending, and the titles
  are pairwise distinct, so a title determines its triple.
\<close>

theorem generateAllCombinations_covers:
  "length generateAllCombinations = 24 \<and>
   distinct (map triple generateAllCombinations) \<and>
   set (map triple generateAllCombinations) =
     (Some ` {''High'', ''Medium'', ''Low''}) \<times>
     (Some ` {''Work'', ''Social'', ''Home'', ''Hobby''}) \<times>
     (Some ` {True, False}) \<and>
   map title generateAllCombinations =
     map (\<lambda>t. Some (''Task '' @ the (importance t) @ '' '' @ the (label t) @ '' '' @
                    (if the (completed t) then ''Done'' else ''Pending'')))
       generateAllCombinations \<and>
   distinct (map title generateAllCombinations)"
proof -
  have len: "length generateAllCombinations = 24"
    by (simp add: generateAllCombinations_unfold)
  have dist: "distinct (map triple generateAllCombinations)"
    by (simp add: generateAllCombinations_unfold triple_combination)
  have cover: "set (map triple generateAllCombinations) =
     (Some ` {''High'', ''Medium'', ''Low''}) \<times>
     (Some ` {''Work'', ''Social'', ''Home'', ''Hobby''}) \<times>
     (Some ` {True, False})"
    unfolding generateAllCombinations_unfold
    by (simp add: triple_combination)
  have titles: "map title generateAllCombinations =
     map (\<lambda>t. Some (''Task '' @ the (importance t) @ '' '' @ the (label t) @ '' '' @
                    (if the (completed t) then ''Done'' else ''Pending'')))
       generateAllCombinations"
    by (simp add: generateAllCombinations_unfold combination_def)
  have dtitles: "distinct (map title generateAllCombinations)"
    by (simp add: generateAllCombinations_unfold title_combination)
  from len dist cover titles dtitles show ?thesis by blast
qed

text \<open>
  C10: every field of \<open>createValidTask o\<close> is the override's value where \<open>o\<close> has the
  key and the fixed default otherwise (a call without argument gives the defaults); the
  overrides are not validated: with the title \<open>""\<close> or \<open>"lowercase title"\<close> the
  returned task is rejected by \<open>validateTask\<close>.
\<close>

theorem createValidTask_fields:
  "title (createValidTask (Some ov)) =
     (case o_title ov of None \<Rightarrow> Some ''Test Task'' | Some v \<Rightarrow> v) \<and>
   description (createValidTask (Some ov)) =
     (case o_description ov of None \<Rightarrow> Some ''Test description'' | Some v \<Rightarrow> v) \<and>
   importance (createValidTask (Some ov)) =
     (case o_importance ov of None \<Rightarrow> Some ''Medium'' | Some v \<Rightarrow> v) \<and>
   label (createValidTask (Some ov)) =
     (case o_label ov of None \<Rightarrow> Some ''Work'' | Some v \<Rightarrow> v) \<and>
   completed (createValidTask (Some ov)) =
     (case o_completed ov of None \<Rightarrow> Some False | Some v \<Rightarrow> v) \<and>
   createValidTask None =
     \<lparr> title = Some ''Test Task'', description = Some ''Test description'',
       importance = Some ''Medium'', label = Some ''Work'', completed = Some False \<rparr> \<and>
   valid (validateTask (createValidTask None)) \<and>
   validateTask (createValidTask (Some
       \<lparr> o_title = Some (Some ''''), o_description = None, o_importance = None,
         o_label = None, o_completed = None \<rparr>))
     = \<lparr> valid = False, errors = [''Title is required''] \<rparr> \<and>
   validateTask (createValidTask (Some
       \<lparr> o_title = Some (Some ''lowercase title''), o_description = None, o_importance = None,
         o_label = None, o_completed = None \<rparr>))
     = \<lparr> valid = False, errors = [''Title should start with a capital letter''] \<rparr>"
proof -
  have fields: "title (createValidTask (Some ov)) =
     (case o_title ov of None \<Rightarrow> Some ''Test Task'' | Some v \<Rightarrow> v) \<and>
   description (createValidTask (Some ov)) =
     (case o_description ov of None \<Rightarrow> Some ''Test description'' | Some v \<Rightarrow> v) \<and>
   importance (createValidTask (Some ov)) =
     (case o_importance ov of None \<Rightarrow> Some ''Medium'' | Some v \<Rightarrow> v) \<and>
   label (createValidTask (Some ov)) =
     (case o_label ov of None \<Rightarrow> Some ''Work'' | Some v \<Rightarrow> v) \<and>
   completed (createValidTask (Some ov)) =
     (case o_completed ov of None \<Rightarrow> Some False | Some v \<Rightarrow> v)"
    by (simp add: createValidTask_def split: option.split)
  have dflt: "createValidTask None =
     \<lparr> title = Some ''Test Task'', description = Some ''Test description'',
       importance = Some ''Medium'', label = Some ''Work'', completed = Some False \<rparr>"
    by (simp add: createValidTask_def)
  have ok: "valid (validateTask (createValidTask None))"
    by (simp add: dflt validateTask_def trim_def is_white_space_def array_includes_def)
  have empty: "validateTask (createValidTask (Some
       \<lparr> o_title = Some (Some ''''), o_description = None, o_importance = None,
         o_label = None, o_completed = None \<rparr>))
     = \<lparr> valid = False, errors = [''Title is required''] \<rparr>"
    by (simp add: createValidTask_def validateTask_def trim_def array_includes_def)
  have lower: "validateTask (createValidTask (Some
       \<lparr> o_title = Some (Some ''lowercase title''), o_description = None, o_importance = None,
         o_label = None, o_completed = None \<rparr>))
     = \<lparr> valid = False, errors = [''Title should start with a capital letter''] \<rparr>"
    by (simp add: createValidTask_def validateTask_def trim_def is_white_space_def
        array_includes_def)
  from fields dflt ok empty lower show ?thesis by blast
qed

theorem createValidTask_fields_witness:
  "title (createValidTask (Some
       \<lparr> o_title = Some (Some ''My Task''), o_description = None,
         o_importance = Some (Some ''High''), o_label = None, o_completed = None \<rparr>))
     = Some ''My Task'' \<and>
   importance (createValidTask (Some
       \<lparr> o_title = Some (Some ''My Task''), o_description = None,
         o_importance = Some (Some ''High''), o_label = None, o_completed = None \<rparr>))
     = Some ''High'' \<and>
   label (createValidTask (Some
       \<lparr> o_title = Some (Some ''My Task''), o_description = None,
         o_importance = Some (Some ''High''), o_label = None, o_completed = None \<rparr>))
     = Some ''Work''"
  using createValidTask_fields [of "\<lparr> o_title = Some (Some ''My Task''), o_description = None,
         o_importance = Some (Some ''High''), o_label = None, o_completed = None \<rparr>"]
  by simp

section \<open>Properties of the wait and retry primitives\<close>






lemma pow2_upt_shift:
  "(d::nat) # map (\<lambda>i. d * 2 * 2 ^ i) [0..<k] = map (\<lambda>i. d * 2 ^ i) [0..<Suc k]"
proof -
  have "map (\<lambda>i. d * 2 ^ i) [0..<Suc k] = d * 2 ^ 0 # map (\<lambda>i. d * 2 ^ i) (map Suc [0..<k])"
    by (simp only: upt_conv_Cons [of 0 "Suc k"] map_Suc_upt list.map zero_less_Suc)
  then show ?thesis by (simp add: comp_def mult.assoc)
qed

lemma backoff_loop_stops:
  assumes "attempt + k < maxAttempts"
    and "\<And>j. j < k \<Longrightarrow> action (invocations log + j) = Inr False"
    and "action (invocations log + k) = outcome"
    and "outcome \<noteq> Inr False"
  shows "backoff_loop action maxAttempts attempt delay log =
           (outcome, \<lparr>invocations = invocations log + k + 1,
                      waits = waits log @ map (\<lambda>i. delay * 2 ^ i) [0..<k]\<rparr>)"
  using assms
proof (induction k arbitrary: attempt delay log)
  case 0
  show ?case
  proof (cases outcome)
    case (Inl e)
    with 0 show ?thesis by (subst backoff_loop.simps) simp
  next
    case (Inr b)
    with 0 have b by simp
    with Inr 0 show ?thesis by (subst backoff_loop.simps) simp
  qed
next
  case (Suc k)
  let ?log = "log\<lparr>invocations := invocations log + 1, waits := waits log @ [delay]\<rparr>"
  from Suc.prems(2) [of 0] have a0: "action (invocations log) = Inr False" by simp
  have lt: "attempt < maxAttempts" "attempt < maxAttempts - 1" using Suc.prems(1) by auto
  have step: "backoff_loop action maxAttempts attempt delay log =
              backoff_loop action maxAttempts (attempt + 1) (delay * 2) ?log"
    using a0 lt by (subst backoff_loop.simps) simp
  have "backoff_loop action maxAttempts (attempt + 1) (delay * 2) ?log =
          (outcome, \<lparr>invocations = invocations ?log + k + 1,
                     waits = waits ?log @ map (\<lambda>i. delay * 2 * 2 ^ i) [0..<k]\<rparr>)"
  proof (rule Suc.IH)
    show "attempt + 1 + k < maxAttempts" using Suc.prems(1) by simp
    show "action (invocations ?log + j) = Inr False" if "j < k" for j
      using Suc.prems(2) [of "Suc j"] that by simp
    show "action (invocations ?log + k) = outcome" using Suc.prems(3) by simp
    show "outcome \<noteq> Inr False" by (rule Suc.prems(4))
  qed
  with step show ?case
    using pow2_upt_shift [of delay k] by simp
qed

lemma backoff_loop_exhausted:
  assumes "attempt \<le> maxAttempts"
    and "\<And>j. j < maxAttempts - attempt \<Longrightarrow> action (invocations log + j) = Inr False"
  shows "backoff_loop action maxAttempts attempt delay log =
           (Inr False, \<lparr>invocations = invocations log + (maxAttempts - attempt),
                        waits = waits log @ map (\<lambda>i. delay * 2 ^ i) [0..<maxAttempts - attempt - 1]\<rparr>)"
  using assms
proof (induction "maxAttempts - attempt" arbitrary: attempt delay log)
  case 0
  then have "attempt = maxAttempts" by simp
  then show ?case by (subst backoff_loop.simps) simp
next
  case (Suc m)
  from Suc.hyps(2) have lt: "attempt < maxAttempts" by simp
  from Suc.prems(2) [of 0] lt have a0: "action (invocations log) = Inr False" by simp
  show ?case
  proof (cases "attempt < maxAttempts - 1")
    case True
    let ?log = "log\<lparr>invocations := invocations log + 1, waits := waits log @ [delay]\<rparr>"
    have step: "backoff_loop action maxAttempts attempt delay log =
                backoff_loop action maxAttempts (attempt + 1) (delay * 2) ?log"
      using a0 lt True by (subst backoff_loop.simps) simp
    obtain k where k: "maxAttempts - attempt - 1 = Suc k" "maxAttempts - (attempt + 1) - 1 = k"
      using True by (cases "maxAttempts - attempt - 1") auto
    have "backoff_loop action maxAttempts (attempt + 1) (delay * 2) ?log =
           (Inr False, \<lparr>invocations = invocations ?log + (maxAttempts - (attempt + 1)),
                        waits = waits ?log @ map (\<lambda>i. delay * 2 * 2 ^ i) [0..<maxAttempts - (attempt + 1) - 1]\<rparr>)"
    proof (rule Suc.hyps(1))
      show "m = maxAttempts - (attempt + 1)" using Suc.hyps(2) by simp
      show "attempt + 1 \<le> maxAttempts" using lt by simp
      show "action (invocations ?log + j) = Inr False" if "j < maxAttempts - (attempt + 1)" for j
        using Suc.prems(2) [of "Suc j"] that by simp
    qed
    then have ih: "backoff_loop action maxAttempts (attempt + 1) (delay * 2) ?log =
           (Inr False, \<lparr>invocations = invocations log + 1 + (maxAttempts - (attempt + 1)),
                        waits = (waits log @ [delay]) @ map (\<lambda>i. delay * 2 * 2 ^ i) [0..<k]\<rparr>)"
      unfolding k(2) by simp
    have inv: "invocations log + 1 + (maxAttempts - (attempt + 1)) =
               invocations log + (maxAttempts - attempt)"
      using lt by simp
    have ws: "(waits log @ [delay]) @ map (\<lambda>i. delay * 2 * 2 ^ i) [0..<k] =
              waits log @ map (\<lambda>i. delay * 2 ^ i) [0..<Suc k]"
      using pow2_upt_shift [of delay k] by (simp only: append_assoc append_Cons append_Nil)
    show ?thesis
      unfolding step ih inv ws k(1) ..
  next
    case False
    with lt have last: "attempt + 1 = maxAttempts" by simp
    let ?log = "log\<lparr>invocations := invocations log + 1\<rparr>"
    have "backoff_loop action maxAttempts attempt delay log =
                backoff_loop action maxAttempts (attempt + 1) delay ?log"
      using a0 lt False by (subst backoff_loop.simps) simp
    also have "\<dots> = (Inr False, ?log)"
      using last by (subst backoff_loop.simps) simp
    finally show ?thesis using last by simp
  qed
qed



text \<open>
  C5: \<open>waitWithBackoff\<close> returns \<open>true\<close> at the first attempt \<open>k\<close> whose action
  answers \<open>true\<close>, after \<open>k + 1\<close> invocations and the waits
  \<open>initialDelay * 2 ^ i\<close> for \<open>i < k\<close>. When the action answers \<open>false\<close> at every
  attempt it returns \<open>false\<close> after exactly \<open>maxAttempts\<close> invocations and the waits
  \<open>initialDelay * 2 ^ i\<close> for \<open>i < maxAttempts - 1\<close>: none after the last attempt. With
  3 attempts and 1000 ms the waits are 1000 and 2000, 3000 ms in total.
\<close>

theorem waitWithBackoff_attempts:
  "(k < maxAttempts \<and> (\<forall>j<k. action j = Inr False) \<and> action k = Inr True \<longrightarrow>
      waitWithBackoff action maxAttempts initialDelay =
        (Inr True, \<lparr>invocations = k + 1, waits = map (\<lambda>i. initialDelay * 2 ^ i) [0..<k]\<rparr>)) \<and>
   ((\<forall>j<maxAttempts. action j = Inr False) \<longrightarrow>
      waitWithBackoff action maxAttempts initialDelay =
        (Inr False, \<lparr>invocations = maxAttempts,
                     waits = map (\<lambda>i. initialDelay * 2 ^ i) [0..<maxAttempts - 1]\<rparr>)) \<and>
   waitWithBackoff (\<lambda>j. Inr False) 3 1000 = (Inr False, \<lparr>invocations = 3, waits = [1000, 2000]\<rparr>) \<and>
   sum_list (waits (snd (waitWithBackoff (\<lambda>j. Inr False) 3 1000))) = 3000"
proof (intro conjI impI)
  assume a: "k < maxAttempts \<and> (\<forall>j<k. action j = Inr False) \<and> action k = Inr True"
  have "backoff_loop action maxAttempts 0 initialDelay \<lparr>invocations = 0, waits = []\<rparr> =
          (Inr True, \<lparr>invocations = invocations \<lparr>invocations = 0, waits = []\<rparr> + k + 1,
                      waits = waits \<lparr>invocations = 0, waits = []\<rparr> @
                              map (\<lambda>i. initialDelay * 2 ^ i) [0..<k]\<rparr>)"
    by (rule backoff_loop_stops) (use a in simp_all)
  then show "waitWithBackoff action maxAttempts initialDelay =
        (Inr True, \<lparr>invocations = k + 1, waits = map (\<lambda>i. initialDelay * 2 ^ i) [0..<k]\<rparr>)"
    by (simp add: waitWithBackoff_def)
next
  assume a: "\<forall>j<maxAttempts. action j = Inr False"
  have "backoff_loop action maxAttempts 0 initialDelay \<lparr>invocations = 0, waits = []\<rparr> =
          (Inr False, \<lparr>invocations = invocations \<lparr>invocations = 0, waits = []\<rparr> + (maxAttempts - 0),
                      waits = waits \<lparr>invocations = 0, waits = []\<rparr> @
                              map (\<lambda>i. initialDelay * 2 ^ i) [0..<maxAttempts - 0 - 1]\<rparr>)"
    by (rule backoff_loop_exhausted) (use a in simp_all)
  then show "waitWithBackoff action maxAttempts initialDelay =
        (Inr False, \<lparr>invocations = maxAttempts,
                     waits = map (\<lambda>i. initialDelay * 2 ^ i) [0..<maxAttempts - 1]\<rparr>)"
    by (simp add: waitWithBackoff_def)
next
  show run: "waitWithBackoff (\<lambda>j. Inr False) 3 1000 =
          (Inr False, \<lparr>invocations = 3, waits = [1000, 2000]\<rparr>)"
    by (simp add: waitWithBackoff_def backoff_loop.simps)
  show "sum_list (waits (snd (waitWithBackoff (\<lambda>j. Inr False) 3 1000))) = 3000"
    by (simp add: run)
qed

theorem waitWithBackoff_attempts_witness:
  "waitWithBackoff (\<lambda>j. Inr (j = 2)) 5 1000 =
     (Inr True, \<lparr>invocations = 3, waits = [1000, 2000]\<rparr>) \<and>
   waitWithBackoff (\<lambda>j. Inr False) 4 1000 =
     (Inr False, \<lparr>invocations = 4, waits = [1000, 2000, 4000]\<rparr>)"
proof -
  have h1: "(2::nat) < 5 \<and> (\<forall>j<2. (\<lambda>j. Inr (j = (2::nat)) :: error + bool) j = Inr False) \<and>
            (\<lambda>j. Inr (j = (2::nat)) :: error + bool) 2 = Inr True"
    by simp
  have u2: "[0..<2] = [0, 1]" and u3: "[0..<3] = [0, 1, 2]"
    by (simp_all add: upt_rec)
  from h1 waitWithBackoff_attempts [of 2 5 "\<lambda>j. Inr (j = 2)" 1000]
  have "waitWithBackoff (\<lambda>j. Inr (j = 2)) 5 1000 =
          (Inr True, \<lparr>invocations = 2 + 1, waits = map (\<lambda>i. 1000 * 2 ^ i) [0..<2]\<rparr>)"
    by blast
  then have a: "waitWithBackoff (\<lambda>j. Inr (j = 2)) 5 1000 =
     (Inr True, \<lparr>invocations = 3, waits = [1000, 2000]\<rparr>)"
    by (simp add: u2)
  have h2: "\<forall>j<4. (\<lambda>j. Inr False :: error + bool) (j::nat) = Inr False"
    by simp
  from h2 waitWithBackoff_attempts [of 0 4 "\<lambda>j. Inr False" 1000]
  have "waitWithBackoff (\<lambda>j. Inr False) 4 1000 =
          (Inr False, \<lparr>invocations = 4, waits = map (\<lambda>i. 1000 * 2 ^ i) [0..<4 - 1]\<rparr>)"
    by blast
  then have b: "waitWithBackoff (\<lambda>j. Inr False) 4 1000 =
     (Inr False, \<lparr>invocations = 4, waits = [1000, 2000, 4000]\<rparr>)"
    by (simp add: u3)
  from a b show ?thesis by blast
qed

text \<open>
  C6: a rejection of the action at attempt \<open>k\<close> (after \<open>false\<close> at every earlier
  attempt) is the result of \<open>waitWithBackoff\<close>, and the action is not invoked again;
  an answer \<open>false\<close> at an attempt that is not the last is followed by another
  invocation.
\<close>

theorem waitWithBackoff_propagates_failure:
  "(k < maxAttempts \<and> (\<forall>j<k. action j = Inr False) \<and> action k = Inl e \<longrightarrow>
      waitWithBackoff action maxAttempts initialDelay =
        (Inl e, \<lparr>invocations = k + 1, waits = map (\<lambda>i. initialDelay * 2 ^ i) [0..<k]\<rparr>)) \<and>
   (k + 1 < maxAttempts \<and> (\<forall>j\<le>k. action j = Inr False) \<longrightarrow>
      k + 2 \<le> invocations (snd (waitWithBackoff action maxAttempts initialDelay)))"
proof (intro conjI impI)
  assume a: "k < maxAttempts \<and> (\<forall>j<k. action j = Inr False) \<and> action k = Inl e"
  have "backoff_loop action maxAttempts 0 initialDelay \<lparr>invocations = 0, waits = []\<rparr> =
          (Inl e, \<lparr>invocations = invocations \<lparr>invocations = 0, waits = []\<rparr> + k + 1,
                   waits = waits \<lparr>invocations = 0, waits = []\<rparr> @
                           map (\<lambda>i. initialDelay * 2 ^ i) [0..<k]\<rparr>)"
    by (rule backoff_loop_stops) (use a in simp_all)
  then show "waitWithBackoff action maxAttempts initialDelay =
        (Inl e, \<lparr>invocations = k + 1, waits = map (\<lambda>i. initialDelay * 2 ^ i) [0..<k]\<rparr>)"
    by (simp add: waitWithBackoff_def)
next
  assume a: "k + 1 < maxAttempts \<and> (\<forall>j\<le>k. action j = Inr False)"
  show "k + 2 \<le> invocations (snd (waitWithBackoff action maxAttempts initialDelay))"
  proof (cases "\<exists>j<maxAttempts. action j \<noteq> Inr False")
    case False
    then have allf: "action j = Inr False" if "j < maxAttempts" for j
      using that by blast
    have "backoff_loop action maxAttempts 0 initialDelay \<lparr>invocations = 0, waits = []\<rparr> =
          (Inr False, \<lparr>invocations = invocations \<lparr>invocations = 0, waits = []\<rparr> + (maxAttempts - 0),
                      waits = waits \<lparr>invocations = 0, waits = []\<rparr> @
                              map (\<lambda>i. initialDelay * 2 ^ i) [0..<maxAttempts - 0 - 1]\<rparr>)"
    proof (rule backoff_loop_exhausted)
      show "0 \<le> maxAttempts" by simp
      show "action (invocations \<lparr>invocations = 0, waits = []\<rparr> + j) = Inr False"
        if "j < maxAttempts - 0" for j
        using allf [of j] that by simp
    qed
    then have "invocations (snd (waitWithBackoff action maxAttempts initialDelay)) = maxAttempts"
      by (simp add: waitWithBackoff_def)
    with a show ?thesis by simp
  next
    case True
    define m where "m = (LEAST j. j < maxAttempts \<and> action j \<noteq> Inr False)"
    from True have "\<exists>j. j < maxAttempts \<and> action j \<noteq> Inr False" by blast
    then have m: "m < maxAttempts \<and> action m \<noteq> Inr False"
      unfolding m_def by (rule LeastI_ex)
    have least: "action j = Inr False" if "j < m" for j
    proof (rule ccontr)
      assume "action j \<noteq> Inr False"
      with that m have "j < maxAttempts \<and> action j \<noteq> Inr False" by simp
      then have "m \<le> j" unfolding m_def by (rule Least_le)
      with that show False by simp
    qed
    have km: "k < m"
    proof (rule ccontr)
      assume "\<not> k < m"
      then have "m \<le> k" by simp
      with a have "action m = Inr False" by blast
      with m show False by simp
    qed
    have "backoff_loop action maxAttempts 0 initialDelay \<lparr>invocations = 0, waits = []\<rparr> =
          (action m, \<lparr>invocations = invocations \<lparr>invocations = 0, waits = []\<rparr> + m + 1,
                      waits = waits \<lparr>invocations = 0, waits = []\<rparr> @
                              map (\<lambda>i. initialDelay * 2 ^ i) [0..<m]\<rparr>)"
    proof (rule backoff_loop_stops)
      show "0 + m < maxAttempts" using m by simp
      show "action (invocations \<lparr>invocations = 0, waits = []\<rparr> + j) = Inr False"
        if "j < m" for j
        using least [OF that] by simp
      show "action (invocations \<lparr>invocations = 0, waits = []\<rparr> + m) = action m" by simp
      show "action m \<noteq> Inr False" using m by simp
    qed
    then have "invocations (snd (waitWithBackoff action maxAttempts initialDelay)) = m + 1"
      by (simp add: waitWithBackoff_def)
    with km show ?thesis by simp
  qed
qed

theorem waitWithBackoff_propagates_failure_witness:
  "waitWithBackoff (\<lambda>j. if j = 1 then Inl (Thrown ''boom'') else Inr False) 5 1000 =
     (Inl (Thrown ''boom''), \<lparr>invocations = 2, waits = [1000]\<rparr>) \<and>
   2 \<le> invocations (snd (waitWithBackoff (\<lambda>j. if j = 1 then Inl (Thrown ''boom'') else Inr False) 5 1000))"
proof -
  let ?action = "\<lambda>j::nat. if j = 1 then Inl (Thrown ''boom'') else (Inr False :: error + bool)"
  have h1: "(1::nat) < 5 \<and> (\<forall>j<1. ?action j = Inr False) \<and> ?action 1 = Inl (Thrown ''boom'')"
    by simp
  from h1 waitWithBackoff_propagates_failure [of 1 5 ?action "Thrown ''boom''" 1000]
  have "waitWithBackoff ?action 5 1000 =
          (Inl (Thrown ''boom''), \<lparr>invocations = 1 + 1, waits = map (\<lambda>i. 1000 * 2 ^ i) [0..<1]\<rparr>)"
    by blast
  then have a: "waitWithBackoff ?action 5 1000 =
          (Inl (Thrown ''boom''), \<lparr>invocations = 2, waits = [1000]\<rparr>)"
    by simp
  have h2: "(0::nat) + 1 < 5 \<and> (\<forall>j\<le>0. ?action j = Inr False)"
    by simp
  from h2 waitWithBackoff_propagates_failure [of 0 5 ?action "Thrown ''boom''" 1000]
  have b: "2 \<le> invocations (snd (waitWithBackoff ?action 5 1000))"
    by simp
  from a b show ?thesis by blast
qed

section \<open>Properties of the persisted-state access\<close>

text \<open>
  C7 (as stated, refuted): with the key \<open>tasks\<close> present and holding the empty string,
  which is not a JSON text, \<open>getStoredTasks\<close> returns the empty collection and no
  failure: the decoder is not called at all, so this holds for a decoder that rejects
  every string and for any other.
\<close>

theorem getStoredTasks_empty_string_counterexample:
  "localStorage \<lparr>localStorage = [''tasks'' \<mapsto> ''''], sessionStorage = Map.empty\<rparr> ''tasks''
     = Some '''' \<and>
   getStoredTasks (\<lambda>s. Inl (Thrown ''SyntaxError''))
     \<lparr>localStorage = [''tasks'' \<mapsto> ''''], sessionStorage = Map.empty\<rparr> = Inr (JArray []) \<and>
   (\<forall>JSON_parse. getStoredTasks JSON_parse
     \<lparr>localStorage = [''tasks'' \<mapsto> ''''], sessionStorage = Map.empty\<rparr> = Inr (JArray []))"
  by (simp add: getStoredTasks_def)

text \<open>
  C7 (amended): \<open>getStoredTasks\<close> returns the empty collection when the key \<open>tasks\<close>
  is absent or holds the empty string; for any other content it returns what
  \<open>JSON.parse\<close> returns: the failure when \<open>JSON.parse\<close> throws, and the decoded value
  otherwise.
\<close>

theorem getStoredTasks_cases:
  "(localStorage b ''tasks'' = None \<or> localStorage b ''tasks'' = Some '''' \<longrightarrow>
      getStoredTasks JSON_parse b = Inr (JArray [])) \<and>
   (localStorage b ''tasks'' = Some s \<and> s \<noteq> '''' \<longrightarrow>
      getStoredTasks JSON_parse b = JSON_parse s) \<and>
   (localStorage b ''tasks'' = Some s \<and> s \<noteq> '''' \<and> JSON_parse s = Inl e \<longrightarrow>
      getStoredTasks JSON_parse b = Inl e)"
  by (auto simp: getStoredTasks_def)

theorem getStoredTasks_cases_witness:
  "getStoredTasks (\<lambda>s. if s = ''[]'' then Inr (JArray []) else Inl (Thrown ''SyntaxError''))
     \<lparr>localStorage = [''tasks'' \<mapsto> ''not json''], sessionStorage = Map.empty\<rparr>
     = Inl (Thrown ''SyntaxError'') \<and>
   getStoredTasks (\<lambda>s. if s = ''[]'' then Inr (JArray []) else Inl (Thrown ''SyntaxError''))
     \<lparr>localStorage = Map.empty, sessionStorage = Map.empty\<rparr>
     = Inr (JArray [])"
proof -
  let ?parse = "\<lambda>s. if s = ''[]'' then Inr (JArray []) else Inl (Thrown ''SyntaxError'')"
  let ?b = "\<lparr>localStorage = [''tasks'' \<mapsto> ''not json''], sessionStorage = Map.empty\<rparr>"
  have "localStorage ?b ''tasks'' = Some ''not json'' \<and> ''not json'' \<noteq> '''' \<and>
        ?parse ''not json'' = Inl (Thrown ''SyntaxError'')"
    by simp
  with getStoredTasks_cases [where b = ?b and s = "''not json''" and JSON_parse = ?parse
      and e = "Thrown ''SyntaxError''"]
  have a: "getStoredTasks ?parse ?b = Inl (Thrown ''SyntaxError'')"
    by blast
  have "localStorage \<lparr>localStorage = Map.empty, sessionStorage = Map.empty\<rparr> ''tasks'' = None"
    by simp
  with getStoredTasks_cases [where b = "\<lparr>localStorage = Map.empty, sessionStorage = Map.empty\<rparr>"
      and s = "''x''" and JSON_parse = ?parse and e = "Thrown ''SyntaxError''"]
  have b: "getStoredTasks ?parse \<lparr>localStorage = Map.empty, sessionStorage = Map.empty\<rparr>
             = Inr (JArray [])"
    by blast
  from a b show ?thesis by blast
qed

text \<open>
  C8: whatever the stores held, the callback of \<open>resetState\<close> leaves both empty, so the
  key \<open>tasks\<close> is absent and a read at that point gives the empty collection; the state
  after \<open>resetState\<close> is the application's start on empty stores and does not depend on
  the prior state; and when that start does not write the key \<open>tasks\<close>,
  \<open>getStoredTasks\<close> right after \<open>resetState\<close> returns the empty collection.
\<close>

theorem resetState_then_getStoredTasks:
  "localStorage (clear_stores b) = Map.empty \<and>
   sessionStorage (clear_stores b) = Map.empty \<and>
   getStoredTasks JSON_parse (clear_stores b) = Inr (JArray []) \<and>
   resetState app_load b =
     app_load \<lparr>localStorage = Map.empty, sessionStorage = Map.empty\<rparr> \<and>
   (localStorage (app_load \<lparr>localStorage = Map.empty, sessionStorage = Map.empty\<rparr>) ''tasks''
      = None \<longrightarrow>
    getStoredTasks JSON_parse (resetState app_load b) = Inr (JArray []))"
proof -
  have c: "clear_stores b = \<lparr>localStorage = Map.empty, sessionStorage = Map.empty\<rparr>"
    by (simp add: clear_stores_def)
  show ?thesis
    unfolding resetState_def c by (simp add: getStoredTasks_def)
qed

theorem resetState_then_getStoredTasks_witness:
  "getStoredTasks (\<lambda>s. Inl (Thrown ''SyntaxError''))
     (resetState (\<lambda>b. b)
        \<lparr>localStorage = [''tasks'' \<mapsto> ''not json'', ''theme'' \<mapsto> ''dark''],
          sessionStorage = [''draft'' \<mapsto> ''x'']\<rparr>)
     = Inr (JArray [])"
proof -
  have "localStorage ((\<lambda>b. b) \<lparr>localStorage = Map.empty, sessionStorage = Map.empty\<rparr>) ''tasks''
          = None"
    by simp
  with resetState_then_getStoredTasks
         [where b = "\<lparr>localStorage = [''tasks'' \<mapsto> ''not json'', ''theme'' \<mapsto> ''dark''],
              sessionStorage = [''draft'' \<mapsto> ''x'']\<rparr>"
            and JSON_parse = "\<lambda>s. Inl (Thrown ''SyntaxError'')" and app_load = "\<lambda>b. b"]
  show ?thesis by blast
qed

section \<open>Properties of the page object\<close>

lemma snd_and_then:
  "snd (and_then r f) = (case fst r of Inl e \<Rightarrow> snd r | Inr u \<Rightarrow> snd (f (snd r)))"
  by (cases r) (auto simp: and_then_def split: sum.splits)

lemma and_then_keeps:
  assumes "g (snd r) = c" and "\<And>d. g d = c \<Longrightarrow> g (snd (f d)) = c"
  shows "g (snd (and_then r f)) = c"
  using assms by (cases "fst r") (simp_all add: snd_and_then)

lemma fill_text_input_frame:
  "task_items (snd (fill_text_input n v d)) = task_items d"
  "textareas (snd (fill_text_input n v d)) = textareas d"
  "selects (snd (fill_text_input n v d)) = selects d"
  by (simp_all add: fill_text_input_def)

lemma fill_textarea_frame:
  "task_items (snd (fill_textarea n v d)) = task_items d"
  "text_inputs (snd (fill_textarea n v d)) = text_inputs d"
  "selects (snd (fill_textarea n v d)) = selects d"
  by (simp_all add: fill_textarea_def)

lemma selectOption_frame:
  "task_items (snd (selectOption n v d)) = task_items d"
  "text_inputs (snd (selectOption n v d)) = text_inputs d"
  "textareas (snd (selectOption n v d)) = textareas d"
  "take n (selects (snd (selectOption n v d))) = take n (selects d)"
  "drop (Suc n) (selects (snd (selectOption n v d))) = drop (Suc n) (selects d)"
  by (simp_all add: selectOption_def)

lemma write_title_frame:
  "task_items (snd (write_title task d)) = task_items d"
  "textareas (snd (write_title task d)) = textareas d"
  "selects (snd (write_title task d)) = selects d"
  by (cases "title task"; cases "fst (fill_text_input 0 [] d)";
      simp add: write_title_def snd_and_then fill_text_input_frame)+

lemma write_title_absent:
  "title task = None \<Longrightarrow> text_inputs (snd (write_title task d)) = text_inputs d"
  by (simp add: write_title_def)

lemma write_description_frame:
  "task_items (snd (write_description task d)) = task_items d"
  "text_inputs (snd (write_description task d)) = text_inputs d"
  "selects (snd (write_description task d)) = selects d"
  by (cases "description task"; cases "fst (fill_textarea 0 [] d)";
      simp add: write_description_def snd_and_then fill_textarea_frame)+

lemma write_description_absent:
  "description task = None \<Longrightarrow> textareas (snd (write_description task d)) = textareas d"
  by (simp add: write_description_def)

lemma write_importance_frame:
  "task_items (snd (write_importance task d)) = task_items d"
  "text_inputs (snd (write_importance task d)) = text_inputs d"
  "textareas (snd (write_importance task d)) = textareas d"
  "drop (Suc 0) (selects (snd (write_importance task d))) = drop (Suc 0) (selects d)"
  by (cases "importance task"; simp add: write_importance_def selectOption_frame)+

lemma write_importance_absent:
  "importance task = None \<Longrightarrow> selects (snd (write_importance task d)) = selects d"
  by (simp add: write_importance_def)

lemma write_label_frame:
  "task_items (snd (write_label task d)) = task_items d"
  "text_inputs (snd (write_label task d)) = text_inputs d"
  "textareas (snd (write_label task d)) = textareas d"
  "take (Suc 0) (selects (snd (write_label task d))) = take (Suc 0) (selects d)"
  using selectOption_frame(4) [of 1]
  by (cases "label task"; simp add: write_label_def selectOption_frame)+

lemma write_label_absent:
  "label task = None \<Longrightarrow> selects (snd (write_label task d)) = selects d"
  by (simp add: write_label_def)

lemmas write_frames =
  write_title_frame write_title_absent write_description_frame write_description_absent
  write_importance_frame write_importance_absent write_label_frame write_label_absent

lemma fillEditForm_keeps:
  assumes "\<And>d. g d = c \<Longrightarrow> g (snd (write_title task d)) = c"
    and "\<And>d. g d = c \<Longrightarrow> g (snd (write_description task d)) = c"
    and "\<And>d. g d = c \<Longrightarrow> g (snd (write_importance task d)) = c"
    and "\<And>d. g d = c \<Longrightarrow> g (snd (write_label task d)) = c"
    and "g d = c"
  shows "g (snd (fillEditForm task d)) = c"
proof -
  have l4: "g (snd (write_label task d)) = c" if "g d = c" for d
    using that by (rule assms(4))
  have l3: "g (snd (and_then (write_importance task d) (write_label task))) = c" if "g d = c" for d
    by (rule and_then_keeps [where g = g and c = c, OF assms(3) [OF that] l4])
  have l2: "g (snd (and_then (write_description task d)
              (\<lambda>d. and_then (write_importance task d) (write_label task)))) = c"
    if "g d = c" for d
    by (rule and_then_keeps [where g = g and c = c, OF assms(2) [OF that] l3])
  have "g (snd (and_then (write_title task d)
              (\<lambda>d. and_then (write_description task d)
                 (\<lambda>d. and_then (write_importance task d) (write_label task))))) = c"
    by (rule and_then_keeps [where g = g and c = c, OF assms(1) [OF assms(5)] l2])
  then show ?thesis by (simp add: fillEditForm_def)
qed

lemma fillEditForm_task_items:
  "task_items (snd (fillEditForm task d)) = task_items d"
  by (rule fillEditForm_keeps)
     (simp_all add: write_frames)

lemma fillEditForm_text_inputs:
  "title task = None \<Longrightarrow> text_inputs (snd (fillEditForm task d)) = text_inputs d"
  by (rule fillEditForm_keeps)
     (simp_all add: write_frames)

lemma fillEditForm_textareas:
  "description task = None \<Longrightarrow> textareas (snd (fillEditForm task d)) = textareas d"
  by (rule fillEditForm_keeps)
     (simp_all add: write_frames)

lemma fillEditForm_importance_select:
  "importance task = None \<Longrightarrow> take 1 (selects (snd (fillEditForm task d))) = take 1 (selects d)"
  by (rule fillEditForm_keeps [where g = "\<lambda>d. take 1 (selects d)"])
     (simp_all add: write_frames)

lemma fillEditForm_label_select:
  "label task = None \<Longrightarrow> drop 1 (selects (snd (fillEditForm task d))) = drop 1 (selects d)"
  by (rule fillEditForm_keeps [where g = "\<lambda>d. drop 1 (selects d)"])
     (simp_all add: write_frames)

lemma click_many:
  "2 \<le> length els \<Longrightarrow> click on_click (Inr els) d = (Inl StrictModeViolation, d)"
proof (cases els)
  case Nil
  assume "2 \<le> length els"
  with Nil show ?thesis by simp
next
  case (Cons el rest)
  assume "2 \<le> length els"
  with Cons obtain el' rest' where "rest = el' # rest'" by (cases rest) auto
  with Cons show ?thesis by simp
qed

lemma click_fails_unchanged:
  "length els \<noteq> 1 \<Longrightarrow> \<exists>e. click on_click (Inr els) d = (Inl e, d)"
proof (cases els)
  case Nil
  then show ?thesis by simp
next
  case (Cons el rest)
  assume "length els \<noteq> 1"
  with Cons obtain el' rest' where "rest = el' # rest'" by (cases rest) auto
  with Cons show ?thesis by simp
qed

lemma matching_buttons_nonempty:
  "list_ex matches bs \<Longrightarrow> filter (\<lambda>j. matches (bs ! j)) [0..<length bs] \<noteq> []"
proof -
  assume "list_ex matches bs"
  then obtain b where "b \<in> set bs" "matches b" by (auto simp: list_ex_iff)
  then obtain j where "j < length bs" "bs ! j = b" by (auto simp: in_set_conv_nth)
  with \<open>matches b\<close> have "j \<in> set (filter (\<lambda>j. matches (bs ! j)) [0..<length bs])" by simp
  then show ?thesis by (metis empty_iff list.set(1))
qed

lemma buttons_in_length:
  "(\<And>i. i \<in> set cards \<Longrightarrow> list_ex matches (buttons (task_items d ! i))) \<Longrightarrow>
   length cards \<le> length (buttons_in matches cards d)"
proof (induction cards)
  case Nil
  then show ?case by (simp add: buttons_in_def)
next
  case (Cons i cards)
  have "list_ex matches (buttons (task_items d ! i))" using Cons.prems by simp
  then have "filter (\<lambda>j. matches (buttons (task_items d ! i) ! j))
               [0..<length (buttons (task_items d ! i))] \<noteq> []"
    by (rule matching_buttons_nonempty)
  then have "1 \<le> length (filter (\<lambda>j. matches (buttons (task_items d ! i) ! j))
               [0..<length (buttons (task_items d ! i))])"
    by (simp add: Suc_le_eq)
  moreover have "length cards \<le> length (buttons_in matches cards d)"
    using Cons.IH Cons.prems by simp
  ultimately show ?case by (simp add: buttons_in_def)
qed

text \<open>
  C3 (as stated, refuted): on a page showing two tasks titled "Buy milk",
  \<open>deleteTask\<close>, \<open>toggleTaskCompletion\<close> and \<open>clickEditTask\<close> (the first step of
  \<open>editTask\<close>) with that title fail with a strict-mode violation and no button is
  clicked: the page still shows both tasks. With any driver and any application the
  delete fails and leaves the page as it was.
\<close>

theorem same_title_counterexample:
  "deleteTask substring_selector removing_app ''Buy milk'' two_same_title
     = (Inl StrictModeViolation, two_same_title) \<and>
   toggleTaskCompletion substring_selector removing_app ''Buy milk'' two_same_title
     = (Inl StrictModeViolation, two_same_title) \<and>
   (\<forall>newTask. editTask substring_selector removing_app ''Buy milk'' newTask two_same_title
     = (Inl StrictModeViolation, two_same_title)) \<and>
   length (task_items (snd (deleteTask substring_selector removing_app ''Buy milk''
                              two_same_title))) = 2 \<and>
   (\<forall>has_text on_click.
      \<exists>e. deleteTask has_text on_click ''Buy milk'' two_same_title = (Inl e, two_same_title))"
proof -
  have del: "deleteTask substring_selector removing_app ''Buy milk'' two_same_title
     = (Inl StrictModeViolation, two_same_title)"
    by (simp add: deleteTask_def getTaskByTitle_def locator_button_has_text_def buttons_in_def
        substring_selector_def two_same_title_def task_card_def)
  have tog: "toggleTaskCompletion substring_selector removing_app ''Buy milk'' two_same_title
     = (Inl StrictModeViolation, two_same_title)"
    by (simp add: toggleTaskCompletion_def getTaskByTitle_def buttons_in_def
        substring_selector_def two_same_title_def task_card_def complete_or_uncomplete_def)
  have "clickEditTask substring_selector removing_app ''Buy milk'' two_same_title
     = (Inl StrictModeViolation, two_same_title)"
    by (simp add: clickEditTask_def getTaskByTitle_def locator_button_has_text_def buttons_in_def
        substring_selector_def two_same_title_def task_card_def)
  then have edit: "editTask substring_selector removing_app ''Buy milk'' newTask two_same_title
     = (Inl StrictModeViolation, two_same_title)" for newTask
    by (simp add: editTask_def and_then_def)
  have two: "length (task_items (snd (deleteTask substring_selector removing_app ''Buy milk''
                              two_same_title))) = 2"
    unfolding del by (simp add: two_same_title_def)
  have any: "\<exists>e. deleteTask has_text on_click ''Buy milk'' two_same_title = (Inl e, two_same_title)"
    for has_text on_click
  proof (cases "has_text ''Buy milk''")
    case (Inl e)
    then show ?thesis
      by (simp add: deleteTask_def getTaskByTitle_def locator_button_has_text_def)
  next
    case title: (Inr matches)
    show ?thesis
    proof (cases "has_text ''Delete''")
      case (Inl e)
      with title show ?thesis
        by (simp add: deleteTask_def getTaskByTitle_def locator_button_has_text_def)
    next
      case (Inr del)
      have "length (buttons_in del
              (filter (\<lambda>i. list_ex matches (h3 (task_items two_same_title ! i)))
                 [0..<length (task_items two_same_title)]) two_same_title) \<noteq> 1"
        by (simp add: buttons_in_def two_same_title_def task_card_def)
      then have "\<exists>e. click on_click (Inr (buttons_in del
              (filter (\<lambda>i. list_ex matches (h3 (task_items two_same_title ! i)))
                 [0..<length (task_items two_same_title)]) two_same_title)) two_same_title
            = (Inl e, two_same_title)"
        by (rule click_fails_unchanged)
      with title Inr show ?thesis
        by (simp add: deleteTask_def getTaskByTitle_def locator_button_has_text_def)
    qed
  qed
  from del tog edit two any show ?thesis by blast
qed

lemma click_card_button:
  "buttons_in matches cards d = [el] \<Longrightarrow>
     click on_click (Inr (buttons_in matches cards d)) d = (Inr (), on_click el d)"
  "cards = [] \<Longrightarrow> click on_click (Inr (buttons_in matches cards d)) d = (Inl TimeoutError, d)"
  "2 \<le> length cards \<Longrightarrow>
   (\<And>i. i \<in> set cards \<Longrightarrow> list_ex matches (buttons (task_items d ! i))) \<Longrightarrow>
     click on_click (Inr (buttons_in matches cards d)) d = (Inl StrictModeViolation, d)"
proof -
  show "click on_click (Inr (buttons_in matches cards d)) d = (Inr (), on_click el d)"
    if "buttons_in matches cards d = [el]"
    using that by simp
  show "click on_click (Inr (buttons_in matches cards d)) d = (Inl TimeoutError, d)"
    if "cards = []"
    using that by (simp add: buttons_in_def)
  show "click on_click (Inr (buttons_in matches cards d)) d = (Inl StrictModeViolation, d)"
    if "2 \<le> length cards"
      and "\<And>i. i \<in> set cards \<Longrightarrow> list_ex matches (buttons (task_items d ! i))"
  proof (rule click_many)
    from that(2) have "length cards \<le> length (buttons_in matches cards d)"
      by (rule buttons_in_length)
    with that(1) show "2 \<le> length (buttons_in matches cards d)" by simp
  qed
qed

text \<open>
  C3 (amended): the three operations resolve every displayed card with an \<open>h3\<close>
  matched by the title. When exactly one card matches (and holds one matching button)
  the operation acts on that card; when two or more cards match, each with its button,
  the operation fails with a strict-mode violation and acts on no card, the page is
  unchanged; when no card matches it times out. No first-match rule is applied.
\<close>

theorem title_lookup_is_strict:
  assumes "has_text taskTitle = Inr matches"
    and "cards = filter (\<lambda>i. list_ex matches (h3 (task_items d ! i))) [0..<length (task_items d)]"
    and "has_text ''Delete'' = Inr del"
    and "has_text ''Edit'' = Inr ed"
  shows
    "(cards = [i] \<and> buttons_in del [i] d = [(i, j)] \<longrightarrow>
        deleteTask has_text on_click taskTitle d = (Inr (), on_click (i, j) d)) \<and>
     (cards = [i] \<and> buttons_in complete_or_uncomplete [i] d = [(i, j)] \<longrightarrow>
        toggleTaskCompletion has_text on_click taskTitle d = (Inr (), on_click (i, j) d)) \<and>
     (cards = [i] \<and> buttons_in ed [i] d = [(i, j)] \<longrightarrow>
        editTask has_text on_click taskTitle newTask d =
          and_then (fillEditForm newTask (on_click (i, j) d)) (saveEditedTask has_text on_click)) \<and>
     (2 \<le> length cards \<and> (\<forall>i\<in>set cards. list_ex del (buttons (task_items d ! i))) \<longrightarrow>
        deleteTask has_text on_click taskTitle d = (Inl StrictModeViolation, d)) \<and>
     (2 \<le> length cards \<and>
      (\<forall>i\<in>set cards. list_ex complete_or_uncomplete (buttons (task_items d ! i))) \<longrightarrow>
        toggleTaskCompletion has_text on_click taskTitle d = (Inl StrictModeViolation, d)) \<and>
     (2 \<le> length cards \<and> (\<forall>i\<in>set cards. list_ex ed (buttons (task_items d ! i))) \<longrightarrow>
        editTask has_text on_click taskTitle newTask d = (Inl StrictModeViolation, d)) \<and>
     (cards = [] \<longrightarrow>
        deleteTask has_text on_click taskTitle d = (Inl TimeoutError, d) \<and>
        toggleTaskCompletion has_text on_click taskTitle d = (Inl TimeoutError, d) \<and>
        editTask has_text on_click taskTitle newTask d = (Inl TimeoutError, d))"
proof -
  have card: "getTaskByTitle has_text taskTitle d = Inr cards"
    using assms(1,2) by (simp add: getTaskByTitle_def)
  have del: "deleteTask has_text on_click taskTitle d =
               click on_click (Inr (buttons_in del cards d)) d"
    using card assms(3) by (simp add: deleteTask_def locator_button_has_text_def)
  have tog: "toggleTaskCompletion has_text on_click taskTitle d =
               click on_click (Inr (buttons_in complete_or_uncomplete cards d)) d"
    using card by (simp add: toggleTaskCompletion_def)
  have ced: "clickEditTask has_text on_click taskTitle d =
               click on_click (Inr (buttons_in ed cards d)) d"
    using card assms(4) by (simp add: clickEditTask_def locator_button_has_text_def)
  have edit: "editTask has_text on_click taskTitle newTask d =
               and_then (click on_click (Inr (buttons_in ed cards d)) d) (\<lambda>d.
               and_then (fillEditForm newTask d) (saveEditedTask has_text on_click))"
    using ced by (simp add: editTask_def)
  have one_del: "deleteTask has_text on_click taskTitle d = (Inr (), on_click (i, j) d)"
    if "cards = [i] \<and> buttons_in del [i] d = [(i, j)]"
    using that del click_card_button(1) [of del cards d "(i, j)" on_click] by simp
  have one_tog: "toggleTaskCompletion has_text on_click taskTitle d = (Inr (), on_click (i, j) d)"
    if "cards = [i] \<and> buttons_in complete_or_uncomplete [i] d = [(i, j)]"
    using that tog click_card_button(1) [of complete_or_uncomplete cards d "(i, j)" on_click]
    by simp
  have one_edit: "editTask has_text on_click taskTitle newTask d =
          and_then (fillEditForm newTask (on_click (i, j) d)) (saveEditedTask has_text on_click)"
    if "cards = [i] \<and> buttons_in ed [i] d = [(i, j)]"
    using that edit click_card_button(1) [of ed cards d "(i, j)" on_click]
    by (simp add: and_then_def)
  have many_del: "deleteTask has_text on_click taskTitle d = (Inl StrictModeViolation, d)"
    if "2 \<le> length cards \<and> (\<forall>i\<in>set cards. list_ex del (buttons (task_items d ! i)))"
    unfolding del by (rule click_card_button(3)) (use that in simp_all)
  have many_tog: "toggleTaskCompletion has_text on_click taskTitle d = (Inl StrictModeViolation, d)"
    if "2 \<le> length cards \<and>
        (\<forall>i\<in>set cards. list_ex complete_or_uncomplete (buttons (task_items d ! i)))"
    unfolding tog by (rule click_card_button(3)) (use that in simp_all)
  have "click on_click (Inr (buttons_in ed cards d)) d = (Inl StrictModeViolation, d)"
    if "2 \<le> length cards \<and> (\<forall>i\<in>set cards. list_ex ed (buttons (task_items d ! i)))"
    by (rule click_card_button(3)) (use that in simp_all)
  then have many_edit: "editTask has_text on_click taskTitle newTask d = (Inl StrictModeViolation, d)"
    if "2 \<le> length cards \<and> (\<forall>i\<in>set cards. list_ex ed (buttons (task_items d ! i)))"
    using that edit by (simp add: and_then_def)
  have none: "deleteTask has_text on_click taskTitle d = (Inl TimeoutError, d) \<and>
        toggleTaskCompletion has_text on_click taskTitle d = (Inl TimeoutError, d) \<and>
        editTask has_text on_click taskTitle newTask d = (Inl TimeoutError, d)"
    if "cards = []"
    using that del tog edit by (simp add: click_card_button(2) and_then_def)
  from one_del one_tog one_edit many_del many_tog many_edit none show ?thesis by blast
qed

theorem title_lookup_is_strict_witness:
  "deleteTask substring_selector removing_app ''Walk dog'' three_tasks = (Inr (), two_same_title) \<and>
   deleteTask substring_selector removing_app ''Buy milk'' three_tasks
     = (Inl StrictModeViolation, three_tasks)"
proof -
  have a: "substring_selector ''Walk dog'' = Inr (contains ''Walk dog'')"
    and b: "substring_selector ''Buy milk'' = Inr (contains ''Buy milk'')"
    and c: "substring_selector ''Delete'' = Inr (contains ''Delete'')"
    and e: "substring_selector ''Edit'' = Inr (contains ''Edit'')"
    by (simp_all add: substring_selector_def)
  have walk: "[2] = filter (\<lambda>i. list_ex (contains ''Walk dog'') (h3 (task_items three_tasks ! i)))
                 [0..<length (task_items three_tasks)]"
    by (simp add: three_tasks_def task_card_def)
  have milk: "[0, 1] = filter (\<lambda>i. list_ex (contains ''Buy milk'') (h3 (task_items three_tasks ! i)))
                 [0..<length (task_items three_tasks)]"
    by (simp add: three_tasks_def task_card_def)
  have btn: "buttons_in (contains ''Delete'') [2] three_tasks = [(2, 2)]"
    by (simp add: buttons_in_def three_tasks_def task_card_def)
  have all: "\<forall>i\<in>set [0, 1]. list_ex (contains ''Delete'') (buttons (task_items three_tasks ! i))"
    by (simp add: three_tasks_def task_card_def)
  from title_lookup_is_strict [OF a walk c e, of 2 2 removing_app] btn
  have "deleteTask substring_selector removing_app ''Walk dog'' three_tasks
          = (Inr (), removing_app (2, 2) three_tasks)"
    by blast
  moreover have "removing_app (2, 2) three_tasks = two_same_title"
    by (simp add: removing_app_def three_tasks_def two_same_title_def)
  moreover from title_lookup_is_strict [OF b milk c e, of 0 0 removing_app] all
  have "deleteTask substring_selector removing_app ''Buy milk'' three_tasks
          = (Inl StrictModeViolation, three_tasks)"
    by simp
  ultimately show ?thesis by simp
qed

text \<open>
  C9 (as stated, refuted): with the application the bug reports describe, which opens
  the edit form with an empty description and the selects at Low and Hobby,
  \<open>editTask\<close> with a new title only leaves the form elements of the absent fields
  untouched, Save stores them, and the task's description, importance and label change
  from "In the park", High and Home to the empty string, Low and Hobby.
\<close>

theorem editTask_absent_fields_counterexample:
  "map description_text (task_items one_task) = [''In the park''] \<and>
   map importance_text (task_items one_task) = [''High''] \<and>
   map label_text (task_items one_task) = [''Home''] \<and>
   editTask substring_selector resetting_app ''Walk dog''
     \<lparr>title = Some ''Walk cat'', description = None, importance = None, label = None,
       completed = None\<rparr> one_task
   = (Inr (),
      \<lparr>task_items = [\<lparr>h3 = [''Walk cat''], buttons = [''Complete'', ''Edit'', ''Delete''],
                       description_text = '''', importance_text = ''Low'',
                       label_text = ''Hobby''\<rparr>],
        text_inputs = [], textareas = [], selects = []\<rparr>)"
  by (simp add: editTask_def clickEditTask_def saveEditedTask_def first_def getTaskByTitle_def
      locator_button_has_text_def buttons_in_def substring_selector_def resetting_app_def
      form_app_def one_task_def and_then_def fillEditForm_def write_title_def
      write_description_def write_importance_def write_label_def fill_text_input_def Let_def)

text \<open>
  C9 (amended): \<open>fillEditForm\<close> writes only fields present in the task. Whether it
  succeeds or fails on the way, the cards are as before; without a title the text inputs
  are as before, without a description the text areas, without an importance the first
  select (the importance select), without a label every select but the first.
  \<open>editTask\<close> clicks Edit on the located card, applies \<open>fillEditForm\<close> to the page
  the application shows then, and clicks Save on the result; it writes nothing else, and
  nothing at all when the click on Edit fails. The task's values for absent fields are
  unchanged by the edit when the application opens the form showing the task's current
  values and Save stores the values of the form in the task; the page object does not
  restore them otherwise.
\<close>

theorem fillEditForm_writes_only_present_fields:
  "task_items (snd (fillEditForm newTask d)) = task_items d \<and>
   (title newTask = None \<longrightarrow> text_inputs (snd (fillEditForm newTask d)) = text_inputs d) \<and>
   (description newTask = None \<longrightarrow> textareas (snd (fillEditForm newTask d)) = textareas d) \<and>
   (importance newTask = None \<longrightarrow>
      take 1 (selects (snd (fillEditForm newTask d))) = take 1 (selects d)) \<and>
   (label newTask = None \<longrightarrow>
      drop 1 (selects (snd (fillEditForm newTask d))) = drop 1 (selects d)) \<and>
   (clickEditTask has_text on_click oldTitle d = (Inl e, d1) \<longrightarrow>
      editTask has_text on_click oldTitle newTask d = (Inl e, d1)) \<and>
   (clickEditTask has_text on_click oldTitle d = (Inr (), d1) \<and>
    fillEditForm newTask d1 = (Inl e, d2) \<longrightarrow>
      editTask has_text on_click oldTitle newTask d = (Inl e, d2)) \<and>
   (clickEditTask has_text on_click oldTitle d = (Inr (), d1) \<and>
    fillEditForm newTask d1 = (Inr (), d2) \<longrightarrow>
      editTask has_text on_click oldTitle newTask d = saveEditedTask has_text on_click d2) \<and>
   (clickEditTask has_text on_click oldTitle d = (Inr (), d1) \<and>
    fillEditForm newTask d1 = (Inr (), d2) \<and>
    saveEditedTask has_text on_click d2 = (Inr (), d3) \<and>
    text_inputs d1 = h3 (task_items d ! i) \<and>
    textareas d1 = [description_text (task_items d ! i)] \<and>
    map selected (selects d1) = [importance_text (task_items d ! i), label_text (task_items d ! i)] \<and>
    h3 (task_items d3 ! i) = text_inputs d2 \<and>
    textareas d2 = [description_text (task_items d3 ! i)] \<and>
    map selected (selects d2) =
      [importance_text (task_items d3 ! i), label_text (task_items d3 ! i)] \<longrightarrow>
      editTask has_text on_click oldTitle newTask d = (Inr (), d3) \<and>
      (title newTask = None \<longrightarrow> h3 (task_items d3 ! i) = h3 (task_items d ! i)) \<and>
      (description newTask = None \<longrightarrow>
         description_text (task_items d3 ! i) = description_text (task_items d ! i)) \<and>
      (importance newTask = None \<longrightarrow>
         importance_text (task_items d3 ! i) = importance_text (task_items d ! i)) \<and>
      (label newTask = None \<longrightarrow>
         label_text (task_items d3 ! i) = label_text (task_items d ! i)))"
proof -
  have e1: "editTask has_text on_click oldTitle newTask d = (Inl e, d1)"
    if "clickEditTask has_text on_click oldTitle d = (Inl e, d1)"
    using that by (simp add: editTask_def and_then_def)
  have e2: "editTask has_text on_click oldTitle newTask d = (Inl e, d2)"
    if "clickEditTask has_text on_click oldTitle d = (Inr (), d1) \<and>
        fillEditForm newTask d1 = (Inl e, d2)"
    using that by (simp add: editTask_def and_then_def)
  have e3: "editTask has_text on_click oldTitle newTask d = saveEditedTask has_text on_click d2"
    if "clickEditTask has_text on_click oldTitle d = (Inr (), d1) \<and>
        fillEditForm newTask d1 = (Inr (), d2)"
    using that by (simp add: editTask_def and_then_def)
  have e4: "editTask has_text on_click oldTitle newTask d = (Inr (), d3) \<and>
      (title newTask = None \<longrightarrow> h3 (task_items d3 ! i) = h3 (task_items d ! i)) \<and>
      (description newTask = None \<longrightarrow>
         description_text (task_items d3 ! i) = description_text (task_items d ! i)) \<and>
      (importance newTask = None \<longrightarrow>
         importance_text (task_items d3 ! i) = importance_text (task_items d ! i)) \<and>
      (label newTask = None \<longrightarrow>
         label_text (task_items d3 ! i) = label_text (task_items d ! i))"
    if h: "clickEditTask has_text on_click oldTitle d = (Inr (), d1) \<and>
    fillEditForm newTask d1 = (Inr (), d2) \<and>
    saveEditedTask has_text on_click d2 = (Inr (), d3) \<and>
    text_inputs d1 = h3 (task_items d ! i) \<and>
    textareas d1 = [description_text (task_items d ! i)] \<and>
    map selected (selects d1) = [importance_text (task_items d ! i), label_text (task_items d ! i)] \<and>
    h3 (task_items d3 ! i) = text_inputs d2 \<and>
    textareas d2 = [description_text (task_items d3 ! i)] \<and>
    map selected (selects d2) =
      [importance_text (task_items d3 ! i), label_text (task_items d3 ! i)]"
  proof -
    from h have d2: "snd (fillEditForm newTask d1) = d2" by simp
    from h e3 have run: "editTask has_text on_click oldTitle newTask d = (Inr (), d3)" by simp
    have t: "h3 (task_items d3 ! i) = h3 (task_items d ! i)" if "title newTask = None"
      using fillEditForm_text_inputs [OF that, of d1] d2 h by simp
    have de: "description_text (task_items d3 ! i) = description_text (task_items d ! i)"
      if "description newTask = None"
      using fillEditForm_textareas [OF that, of d1] d2 h by simp
    have im: "importance_text (task_items d3 ! i) = importance_text (task_items d ! i)"
      if "importance newTask = None"
    proof -
      from fillEditForm_importance_select [OF that, of d1] d2
      have "take 1 (map selected (selects d2)) = take 1 (map selected (selects d1))"
        by (simp add: take_map)
      with h show ?thesis by simp
    qed
    have la: "label_text (task_items d3 ! i) = label_text (task_items d ! i)"
      if "label newTask = None"
    proof -
      from fillEditForm_label_select [OF that, of d1] d2
      have "drop 1 (map selected (selects d2)) = drop 1 (map selected (selects d1))"
        by (simp add: drop_map)
      with h show ?thesis by simp
    qed
    from run t de im la show ?thesis by blast
  qed
  from fillEditForm_task_items [of newTask d]
       fillEditForm_text_inputs [of newTask d]
       fillEditForm_textareas [of newTask d]
       fillEditForm_importance_select [of newTask d]
       fillEditForm_label_select [of newTask d]
       e1 e2 e3 e4
  show ?thesis by blast
qed

theorem fillEditForm_writes_only_present_fields_witness:
  "fillEditForm \<lparr>title = Some ''New title'', description = None, importance = Some ''High'',
                 label = None, completed = None\<rparr> editing
     = (Inr (), editing\<lparr>text_inputs := [''New title''],
                         selects := [\<lparr>options = [''High'', ''Medium'', ''Low''], selected = ''High''\<rparr>,
                                     \<lparr>options = [''Work'', ''Social'', ''Home'', ''Hobby''],
                                       selected = ''Work''\<rparr>]\<rparr>) \<and>
   textareas (snd (fillEditForm \<lparr>title = Some ''New title'', description = None,
        importance = Some ''High'', label = None, completed = None\<rparr> editing))
     = [''Old description''] \<and>
   drop 1 (selects (snd (fillEditForm \<lparr>title = Some ''New title'', description = None,
        importance = Some ''High'', label = None, completed = None\<rparr> editing)))
     = [\<lparr>options = [''Work'', ''Social'', ''Home'', ''Hobby''], selected = ''Work''\<rparr>] \<and>
   editTask substring_selector prefilling_app ''Walk dog''
     \<lparr>title = Some ''Walk cat'', description = None, importance = None, label = None,
       completed = None\<rparr> one_task
   = (Inr (),
      \<lparr>task_items = [\<lparr>h3 = [''Walk cat''], buttons = [''Complete'', ''Edit'', ''Delete''],
                       description_text = ''In the park'', importance_text = ''High'',
                       label_text = ''Home''\<rparr>],
        text_inputs = [], textareas = [], selects = []\<rparr>) \<and>
   description_text (task_items (snd (editTask substring_selector prefilling_app ''Walk dog''
     \<lparr>title = Some ''Walk cat'', description = None, importance = None, label = None,
       completed = None\<rparr> one_task)) ! 0) = description_text (task_items one_task ! 0)"
proof -
  let ?t = "\<lparr>title = Some ''New title'', description = None, importance = Some ''High'',
             label = None, completed = None\<rparr>"
  have run: "fillEditForm ?t editing
     = (Inr (), editing\<lparr>text_inputs := [''New title''],
                         selects := [\<lparr>options = [''High'', ''Medium'', ''Low''], selected = ''High''\<rparr>,
                                     \<lparr>options = [''Work'', ''Social'', ''Home'', ''Hobby''],
                                       selected = ''Work''\<rparr>]\<rparr>)"
    by (simp add: fillEditForm_def write_title_def write_description_def write_importance_def
        write_label_def and_then_def fill_text_input_def selectOption_def editing_def)
  have "description ?t = None" and "label ?t = None" by simp_all
  with fillEditForm_writes_only_present_fields [where newTask = ?t and d = editing]
  have "textareas (snd (fillEditForm ?t editing)) = textareas editing"
    and "drop 1 (selects (snd (fillEditForm ?t editing))) = drop 1 (selects editing)"
    by blast+
  then have frame: "textareas (snd (fillEditForm ?t editing)) = [''Old description'']"
    "drop 1 (selects (snd (fillEditForm ?t editing)))
           = [\<lparr>options = [''Work'', ''Social'', ''Home'', ''Hobby''], selected = ''Work''\<rparr>]"
    by (simp_all add: editing_def)
  let ?n = "\<lparr>title = Some ''Walk cat'', description = None, importance = None, label = None,
             completed = None\<rparr>"
  let ?form = "[\<lparr>options = [''High'', ''Medium'', ''Low''], selected = ''High''\<rparr>,
                \<lparr>options = [''Work'', ''Social'', ''Home'', ''Hobby''], selected = ''Home''\<rparr>]"
  let ?d1 = "\<lparr>task_items = [\<lparr>h3 = [], buttons = [''Save'', ''Cancel''],
                              description_text = ''In the park'', importance_text = ''High'',
                              label_text = ''Home''\<rparr>],
               text_inputs = [''Walk dog''], textareas = [''In the park''], selects = ?form\<rparr>"
  let ?d2 = "\<lparr>task_items = [\<lparr>h3 = [], buttons = [''Save'', ''Cancel''],
                              description_text = ''In the park'', importance_text = ''High'',
                              label_text = ''Home''\<rparr>],
               text_inputs = [''Walk cat''], textareas = [''In the park''], selects = ?form\<rparr>"
  let ?d3 = "\<lparr>task_items = [\<lparr>h3 = [''Walk cat''], buttons = [''Complete'', ''Edit'', ''Delete''],
                       description_text = ''In the park'', importance_text = ''High'',
                       label_text = ''Home''\<rparr>],
        text_inputs = [], textareas = [], selects = []\<rparr>"
  have s1: "clickEditTask substring_selector prefilling_app ''Walk dog'' one_task = (Inr (), ?d1)"
    by (simp add: clickEditTask_def getTaskByTitle_def locator_button_has_text_def buttons_in_def
        substring_selector_def prefilling_app_def form_app_def one_task_def Let_def)
  have s2: "fillEditForm ?n ?d1 = (Inr (), ?d2)"
    by (simp add: fillEditForm_def write_title_def write_description_def write_importance_def
        write_label_def and_then_def fill_text_input_def)
  have s3: "saveEditedTask substring_selector prefilling_app ?d2 = (Inr (), ?d3)"
    by (simp add: saveEditedTask_def first_def locator_button_has_text_def buttons_in_def
        substring_selector_def prefilling_app_def form_app_def Let_def)
  have shown: "text_inputs ?d1 = h3 (task_items one_task ! 0) \<and>
      textareas ?d1 = [description_text (task_items one_task ! 0)] \<and>
      map selected (selects ?d1) =
        [importance_text (task_items one_task ! 0), label_text (task_items one_task ! 0)]"
    by (simp add: one_task_def)
  have stored: "h3 (task_items ?d3 ! 0) = text_inputs ?d2 \<and>
      textareas ?d2 = [description_text (task_items ?d3 ! 0)] \<and>
      map selected (selects ?d2) =
        [importance_text (task_items ?d3 ! 0), label_text (task_items ?d3 ! 0)]"
    by simp
  have absent: "description ?n = None" by simp
  note all = fillEditForm_writes_only_present_fields
         [where newTask = ?n and d = one_task and has_text = substring_selector
            and on_click = prefilling_app and oldTitle = "''Walk dog''"
            and ?d1.0 = ?d1 and ?d2.0 = ?d2 and ?d3.0 = ?d3 and i = 0]
  note last = all [THEN conjunct2, THEN conjunct2, THEN conjunct2, THEN conjunct2,
                   THEN conjunct2, THEN conjunct2, THEN conjunct2, THEN conjunct2]
  note concl = last [rule_format,
      OF conjI [OF s1 conjI [OF s2 conjI [OF s3 conjI [OF shown [THEN conjunct1]
         conjI [OF shown [THEN conjunct2, THEN conjunct1]
         conjI [OF shown [THEN conjunct2, THEN conjunct2]
         conjI [OF stored [THEN conjunct1]
         conjI [OF stored [THEN conjunct2, THEN conjunct1]
                   stored [THEN conjunct2, THEN conjunct2]]]]]]]]]]
  have edit: "editTask substring_selector prefilling_app ''Walk dog'' ?n one_task = (Inr (), ?d3)"
    by (rule concl [THEN conjunct1])
  have kept: "description_text (task_items ?d3 ! 0) = description_text (task_items one_task ! 0)"
    by (rule concl [THEN conjunct2, THEN conjunct2, THEN conjunct1, rule_format, OF absent])
  from edit kept
  have "description_text (task_items (snd (editTask substring_selector prefilling_app
          ''Walk dog'' ?n one_task)) ! 0) = description_text (task_items one_task ! 0)"
    by simp
  with run frame edit show ?thesis by blast
qed


end
